theory Spec2Isabelle
  imports Main "HOL-Library.Word"
begin

section \<open>The WebP shim (webp.c): memory, library and buffer model\<close>

text \<open>
  webp.c is compiled by Emscripten to 32-bit WebAssembly: \<open>int\<close> is a signed 32-bit
  integer and \<open>size_t\<close> an unsigned 32-bit integer. Pointers are addresses, \<open>NULL\<close> is
  address 0. The heap maps the address of every live allocation to the object stored
  there. What C leaves undefined (a null dereference, a copy outside a buffer, freeing
  what is not allocated, signed overflow) is a \<open>fault\<close> value: the run stops there.
\<close>

type_synonym addr = nat
type_synonym byte = "8 word"

text \<open>A memory cell holds a byte, or nothing yet when it is uninitialised.\<close>

type_synonym cell = "byte option"

definition NULL :: addr where
  "NULL = 0"

definition INT_MAX :: nat where
  "INT_MAX = 2147483647"

text \<open>Conversion of an \<open>int\<close> to \<open>size_t\<close>, and \<open>size_t\<close> arithmetic: modulo \<open>2 ^ 32\<close>.\<close>

definition to_size_t :: "int \<Rightarrow> nat" where
  "to_size_t i = nat (i mod 4294967296)"

definition size_t_wrap :: "nat \<Rightarrow> nat" where
  "size_t_wrap n = n mod 4294967296"

text \<open>\<open>typedef struct { size_t byte_count; uint8_t* bytes; } ImageBuffer;\<close>\<close>

record ImageBuffer =
  byte_count :: nat
  bytes :: addr

definition sizeof_ImageBuffer :: nat where
  "sizeof_ImageBuffer = 8"

text \<open>
  The objects of the heap: a block of raw bytes from \<open>malloc\<close> (an input buffer, the
  RGBA pixels of the decoder), an \<open>ImageBuffer\<close> struct, and a stretchy buffer, whose
  element count \<open>sb_count\<close> is the length of its cell list.
\<close>

datatype obj = Block "cell list" | Handle ImageBuffer | Stretchy "cell list"

datatype fault = NullDeref | InvalidPointer | InvalidFree | OutOfBounds
  | IntOverflow | OutOfMemory

text \<open>What the program prints, and the calls it makes into libwebp and stb_image_write.\<close>

datatype event = Stdout string | Stderr string
  | Call_WebPGetInfo addr nat
  | Call_WebPDecodeRGBA addr nat
  | Call_WebPFree addr
  | Call_stbi_write_png addr int int int addr int
  | Call_stbi_write_jpg addr int int int addr int

text \<open>
  The state: the live allocations, the highest address handed out so far (the allocator
  never hands an address out twice), and the events so far, oldest first.
\<close>

record world =
  live :: "addr \<Rightarrow> obj option"
  brk :: addr
  trace :: "event list"

text \<open>
  The libraries webp.c is linked with are parameters of the model:
  \<^item> \<open>grants w n\<close>: whether the allocator satisfies a request for \<open>n\<close> bytes in state \<open>w\<close>
    (for \<open>n = 0\<close> too: C leaves the result of \<open>malloc(0)\<close> to the implementation);
  \<^item> \<open>relocates w a\<close>: whether growing the allocation at \<open>a\<close> moves it;
  \<^item> \<open>WebPGetInfo\<close>: the dimensions of the WebP stream of the given size at the given
    address, \<open>None\<close> when the probe reports an error (the C function returns 0);
  \<^item> \<open>WebPDecodeRGBA\<close>: the dimensions and RGBA pixels, \<open>None\<close> when the C function
    returns \<open>NULL\<close>;
  \<^item> \<open>png_encoder\<close>, \<open>jpg_encoder\<close>: from the memory, \<open>x\<close>, \<open>y\<close>, \<open>comp\<close>, the pixel
    pointer and the stride (PNG) or quality (JPEG), the chunks the stb encoder hands to
    its write callback, in order, and the \<open>int\<close> it returns (0 for failure).
\<close>

record lib =
  grants :: "world \<Rightarrow> nat \<Rightarrow> bool"
  relocates :: "world \<Rightarrow> addr \<Rightarrow> bool"
  WebPGetInfo :: "(addr \<Rightarrow> obj option) \<Rightarrow> addr \<Rightarrow> nat \<Rightarrow> (int \<times> int) option"
  WebPDecodeRGBA :: "(addr \<Rightarrow> obj option) \<Rightarrow> addr \<Rightarrow> nat \<Rightarrow> (int \<times> int \<times> byte list) option"
  png_encoder :: "(addr \<Rightarrow> obj option) \<Rightarrow> int \<Rightarrow> int \<Rightarrow> int \<Rightarrow> addr \<Rightarrow> int \<Rightarrow> byte list list \<times> int"
  jpg_encoder :: "(addr \<Rightarrow> obj option) \<Rightarrow> int \<Rightarrow> int \<Rightarrow> int \<Rightarrow> addr \<Rightarrow> int \<Rightarrow> byte list list \<times> int"

definition emit :: "event \<Rightarrow> world \<Rightarrow> world" where
  "emit e w = w\<lparr>trace := trace w @ [e]\<rparr>"

subsection \<open>The C library's allocator\<close>

text \<open>A new allocation gets the next address never used before.\<close>

definition alloc :: "world \<Rightarrow> obj \<Rightarrow> addr \<times> world" where
  "alloc w ob = (Suc (brk w), w\<lparr>live := (live w)(Suc (brk w) \<mapsto> ob), brk := Suc (brk w)\<rparr>)"

text \<open>\<open>malloc(n)\<close>: \<open>n\<close> uninitialised bytes, or \<open>NULL\<close> when the allocator refuses.\<close>

definition malloc :: "lib \<Rightarrow> world \<Rightarrow> nat \<Rightarrow> addr \<times> world" where
  "malloc l w n = (if grants l w n then alloc w (Block (replicate n None)) else (NULL, w))"

text \<open>
  \<open>free(p)\<close>: nothing for \<open>NULL\<close>; undefined for an address that is not the start of a
  live \<open>malloc\<close> allocation (the pointer to a stretchy buffer is not: its allocation
  starts at the header before it).
\<close>

definition free :: "world \<Rightarrow> addr \<Rightarrow> fault + world" where
  "free w p =
     (if p = NULL then Inr w
      else case live w p of
             None \<Rightarrow> Inl InvalidFree
           | Some (Stretchy cs) \<Rightarrow> Inl InvalidFree
           | Some ob \<Rightarrow> Inr (w\<lparr>live := (live w)(p := None)\<rparr>))"

subsection \<open>stretchy_buffer.h\<close>

text \<open>
  Modelled from the spec: the macros \<open>sb_count\<close>, \<open>sb_add\<close> and \<open>sb_free\<close> of
  stretchy_buffer.h, which is not among the sources. The spec calls \<open>sb_count\<close> the
  capacity of the Growable Byte Buffer: the number of elements of the stretchy buffer,
  0 for the null buffer.
\<close>

definition sb_count :: "world \<Rightarrow> addr \<Rightarrow> fault + nat" where
  "sb_count w a =
     (if a = NULL then Inr 0
      else case live w a of
             Some (Stretchy cs) \<Rightarrow> Inr (length cs)
           | _ \<Rightarrow> Inl InvalidPointer)"

text \<open>
  Modelled from the spec: \<open>sb_add(a, n)\<close> of stretchy_buffer.h, which adds \<open>n\<close>
  uninitialised elements at the end of the buffer and stores the buffer's address,
  which may have changed, back into \<open>a\<close>: the new address is returned here. The null
  buffer is allocated on its first growth. The count is an \<open>int\<close>; growth that the
  allocator refuses is not recovered from.
\<close>

definition sb_add :: "lib \<Rightarrow> world \<Rightarrow> addr \<Rightarrow> nat \<Rightarrow> fault + (addr \<times> world)" where
  "sb_add l w a n =
     (if a = NULL then
        (if INT_MAX < n then Inl IntOverflow
         else if \<not> grants l w n then Inl OutOfMemory
         else Inr (alloc w (Stretchy (replicate n None))))
      else case live w a of
             Some (Stretchy cs) \<Rightarrow>
               (if INT_MAX < length cs + n then Inl IntOverflow
                else if \<not> grants l w (length cs + n) then Inl OutOfMemory
                else if relocates l w a
                  then Inr (alloc (w\<lparr>live := (live w)(a := None)\<rparr>) (Stretchy (cs @ replicate n None)))
                  else Inr (a, w\<lparr>live := (live w)(a \<mapsto> Stretchy (cs @ replicate n None))\<rparr>))
           | _ \<Rightarrow> Inl InvalidPointer)"

text \<open>
  Modelled from the spec: \<open>sb_free(a)\<close> of stretchy_buffer.h, which releases the
  backing storage and is safe on the empty (null) buffer.
\<close>

definition sb_free :: "world \<Rightarrow> addr \<Rightarrow> fault + world" where
  "sb_free w a =
     (if a = NULL then Inr w
      else case live w a of
             Some (Stretchy cs) \<Rightarrow> Inr (w\<lparr>live := (live w)(a := None)\<rparr>)
           | _ \<Rightarrow> Inl InvalidFree)"

text \<open>
  \<open>memcpy(a + off, data, size)\<close> into a stretchy buffer. Copying no bytes touches no
  memory; any other copy must lie inside the buffer.
\<close>

definition memcpy :: "world \<Rightarrow> addr \<Rightarrow> nat \<Rightarrow> byte list \<Rightarrow> fault + world" where
  "memcpy w a off data =
     (if data = [] then Inr w
      else if a = NULL then Inl NullDeref
      else case live w a of
             Some (Stretchy cs) \<Rightarrow>
               (if off + length data \<le> length cs
                then Inr (w\<lparr>live := (live w)(a \<mapsto>
                       Stretchy (take off cs @ map Some data @ drop (off + length data) cs))\<rparr>)
                else Inl OutOfBounds)
           | _ \<Rightarrow> Inl InvalidPointer)"

section \<open>webp.c\<close>

subsection \<open>Buffers to transfer data into wasm\<close>

text \<open>\<open>uint8_t* create_buffer(int size) { return malloc(size * sizeof(uint8_t)); }\<close>\<close>

definition create_buffer :: "lib \<Rightarrow> world \<Rightarrow> int \<Rightarrow> addr \<times> world" where
  "create_buffer l w sz = malloc l w (size_t_wrap (to_size_t sz * 1))"

text \<open>\<open>void destroy_buffer(uint8_t* p) { free(p); }\<close>\<close>

definition destroy_buffer :: "world \<Rightarrow> addr \<Rightarrow> fault + world" where
  "destroy_buffer w p = free w p"

subsection \<open>ImageBuffer handles\<close>

text \<open>Reading the struct a handle points to.\<close>

definition deref :: "world \<Rightarrow> addr \<Rightarrow> fault + ImageBuffer" where
  "deref w p =
     (if p = NULL then Inl NullDeref
      else case live w p of
             Some (Handle ib) \<Rightarrow> Inr ib
           | _ \<Rightarrow> Inl InvalidPointer)"

definition get_image_bytes_from_handle :: "world \<Rightarrow> addr \<Rightarrow> fault + addr" where
  "get_image_bytes_from_handle w p =
     (case deref w p of Inl e \<Rightarrow> Inl e | Inr ib \<Rightarrow> Inr (bytes ib))"

definition get_num_bytes_from_handle :: "world \<Rightarrow> addr \<Rightarrow> fault + nat" where
  "get_num_bytes_from_handle w p =
     (case deref w p of Inl e \<Rightarrow> Inl e | Inr ib \<Rightarrow> Inr (byte_count ib))"

definition release_image_handle :: "world \<Rightarrow> addr \<Rightarrow> fault + world" where
  "release_image_handle w image_buffer =
     (if image_buffer \<noteq> NULL then
        (case deref w image_buffer of
           Inl e \<Rightarrow> Inl e
         | Inr ib \<Rightarrow>
             (case sb_free w (bytes ib) of
                Inl e \<Rightarrow> Inl e
              | Inr w1 \<Rightarrow> free w1 image_buffer))
      else Inr w)"

text \<open>
  \<open>createImageBuffer\<close> does not check what \<open>malloc\<close> returned before it writes the two
  fields.
\<close>

definition createImageBuffer :: "lib \<Rightarrow> world \<Rightarrow> fault + (addr \<times> world)" where
  "createImageBuffer l w =
     (case malloc l w sizeof_ImageBuffer of
        (image_buffer, w1) \<Rightarrow>
          if image_buffer = NULL then Inl NullDeref
          else Inr (image_buffer,
                 w1\<lparr>live := (live w1)(image_buffer \<mapsto> Handle \<lparr>byte_count = 0, bytes = NULL\<rparr>)\<rparr>))"

subsection \<open>The write callback\<close>

text \<open>
  \<open>write_image_to_mem(context, data, size)\<close>: the encoder passes \<open>size\<close> bytes at
  \<open>data\<close>; the model passes those bytes, and \<open>sz\<close>, the \<open>size\<close> of the source, is
  their number. The comparison is made in \<open>size_t\<close>, as is the addition to
  \<open>byte_count\<close>. \<open>sb_add\<close> assigns the buffer's new address to \<open>image_buffer->bytes\<close>:
  here the struct is written once, at the end, with that address and the new count.
\<close>

definition write_image_to_mem :: "lib \<Rightarrow> world \<Rightarrow> addr \<Rightarrow> byte list \<Rightarrow> fault + world" where
  "write_image_to_mem l w context data =
     (let sz = length data in
      case deref w context of
        Inl e \<Rightarrow> Inl e
      | Inr image_buffer \<Rightarrow>
          (case sb_count w (bytes image_buffer) of
             Inl e \<Rightarrow> Inl e
           | Inr size_of_buffer \<Rightarrow>
               (case (if size_of_buffer < size_t_wrap (byte_count image_buffer + sz)
                      then sb_add l w (bytes image_buffer) (if sz < 128 then 128 else sz)
                      else Inr (bytes image_buffer, w)) of
                  Inl e \<Rightarrow> Inl e
                | Inr (bytes1, w1) \<Rightarrow>
                    (case memcpy w1 bytes1 (byte_count image_buffer) data of
                       Inl e \<Rightarrow> Inl e
                     | Inr w2 \<Rightarrow>
                         Inr (w2\<lparr>live := (live w2)(context \<mapsto>
                                Handle \<lparr>byte_count = size_t_wrap (byte_count image_buffer + sz),
                                        bytes = bytes1\<rparr>)\<rparr>)))))"

text \<open>
  \<open>stbi_write_png_to_func\<close> and \<open>stbi_write_jpg_to_func\<close> call \<open>func(context, data,
  size)\<close> once for each chunk of their output, in order, and then return their result.
\<close>

fun feed :: "(world \<Rightarrow> addr \<Rightarrow> byte list \<Rightarrow> fault + world) \<Rightarrow> world \<Rightarrow> addr \<Rightarrow> byte list list
    \<Rightarrow> fault + world" where
  "feed func w context [] = Inr w"
| "feed func w context (data # rest) =
     (case func w context data of
        Inl e \<Rightarrow> Inl e
      | Inr w1 \<Rightarrow> feed func w1 context rest)"

definition stbi_write_png_to_func ::
  "lib \<Rightarrow> (world \<Rightarrow> addr \<Rightarrow> byte list \<Rightarrow> fault + world) \<Rightarrow> world \<Rightarrow> addr \<Rightarrow> int \<Rightarrow> int \<Rightarrow> int
    \<Rightarrow> addr \<Rightarrow> int \<Rightarrow> fault + (int \<times> world)" where
  "stbi_write_png_to_func l func w context x y ncomp data stride_bytes =
     (let w0 = emit (Call_stbi_write_png context x y ncomp data stride_bytes) w in
      case png_encoder l (live w0) x y ncomp data stride_bytes of
        (chunks, result) \<Rightarrow>
          (case feed func w0 context chunks of
             Inl e \<Rightarrow> Inl e
           | Inr w1 \<Rightarrow> Inr (result, w1)))"

definition stbi_write_jpg_to_func ::
  "lib \<Rightarrow> (world \<Rightarrow> addr \<Rightarrow> byte list \<Rightarrow> fault + world) \<Rightarrow> world \<Rightarrow> addr \<Rightarrow> int \<Rightarrow> int \<Rightarrow> int
    \<Rightarrow> addr \<Rightarrow> int \<Rightarrow> fault + (int \<times> world)" where
  "stbi_write_jpg_to_func l func w context x y ncomp data quality =
     (let w0 = emit (Call_stbi_write_jpg context x y ncomp data quality) w in
      case jpg_encoder l (live w0) x y ncomp data quality of
        (chunks, result) \<Rightarrow>
          (case feed func w0 context chunks of
             Inl e \<Rightarrow> Inl e
           | Inr w1 \<Rightarrow> Inr (result, w1)))"

text \<open>\<open>WebPFree(p)\<close> is \<open>free(p)\<close>.\<close>

definition WebPFree :: "world \<Rightarrow> addr \<Rightarrow> fault + world" where
  "WebPFree w p = free (emit (Call_WebPFree p) w) p"

subsection \<open>Decoding and transcoding\<close>

text \<open>
  \<open>decode_webp_to_rgba\<close> returns the pixel pointer and the \<open>width\<close> and \<open>height\<close> it
  wrote through its out-parameters (0 here where it wrote none: the callers do not read
  them after a \<open>NULL\<close>). The pixels \<open>WebPDecodeRGBA\<close> returns are a new allocation. The
  stride \<open>width * 4\<close> is passed on to the encoder only; it is computed on unbounded
  integers here (libwebp limits a dimension to 16383).
\<close>

definition decode_webp_to_rgba :: "lib \<Rightarrow> world \<Rightarrow> addr \<Rightarrow> nat \<Rightarrow> (addr \<times> int \<times> int) \<times> world" where
  "decode_webp_to_rgba l w webp_ptr sz =
     (let w1 = (if webp_ptr = NULL
                then emit (Stdout ''decode_webp_to_rgba() called with NULL webp_ptr'') w
                else w);
          w2 = emit (Call_WebPGetInfo webp_ptr sz) w1
      in case WebPGetInfo l (live w2) webp_ptr sz of
           None \<Rightarrow> ((NULL, 0, 0), emit (Stderr (''WebPGetInfo() returned an error'' @ [CHR 0x0A])) w2)
         | Some (width, height) \<Rightarrow>
             (let w3 = emit (Call_WebPDecodeRGBA webp_ptr sz) w2
              in case WebPDecodeRGBA l (live w3) webp_ptr sz of
                   None \<Rightarrow> ((NULL, width, height), w3)
                 | Some (width1, height1, pixels) \<Rightarrow>
                     (case alloc w3 (Block (map Some pixels)) of
                        (rgba_ptr, w4) \<Rightarrow> ((rgba_ptr, width1, height1), w4))))"

definition get_png_handle_from_webp :: "lib \<Rightarrow> world \<Rightarrow> addr \<Rightarrow> nat \<Rightarrow> fault + (addr \<times> world)" where
  "get_png_handle_from_webp l w webp_ptr sz =
     (case decode_webp_to_rgba l w webp_ptr sz of
        ((rgba_ptr, width, height), w1) \<Rightarrow>
          if rgba_ptr = NULL then Inr (NULL, w1)
          else
            (case createImageBuffer l w1 of
               Inl e \<Rightarrow> Inl e
             | Inr (image_buffer, w2) \<Rightarrow>
                 (case stbi_write_png_to_func l (write_image_to_mem l) w2 image_buffer
                         width height 4 rgba_ptr (width * 4) of
                    Inl e \<Rightarrow> Inl e
                  | Inr (result, w3) \<Rightarrow>
                      (case WebPFree w3 rgba_ptr of
                         Inl e \<Rightarrow> Inl e
                       | Inr w4 \<Rightarrow>
                           if result = 0 then Inr (NULL, w4)
                           else Inr (image_buffer, w4)))))"

definition get_jpg_handle_from_webp :: "lib \<Rightarrow> world \<Rightarrow> addr \<Rightarrow> nat \<Rightarrow> fault + (addr \<times> world)" where
  "get_jpg_handle_from_webp l w webp_ptr sz =
     (case decode_webp_to_rgba l w webp_ptr sz of
        ((rgba_ptr, width, height), w1) \<Rightarrow>
          if rgba_ptr = NULL then Inr (NULL, w1)
          else
            (case createImageBuffer l w1 of
               Inl e \<Rightarrow> Inl e
             | Inr (image_buffer, w2) \<Rightarrow>
                 (case stbi_write_jpg_to_func l (write_image_to_mem l) w2 image_buffer
                         width height 4 rgba_ptr 100 of
                    Inl e \<Rightarrow> Inl e
                  | Inr (result, w3) \<Rightarrow>
                      (case WebPFree w3 rgba_ptr of
                         Inl e \<Rightarrow> Inl e
                       | Inr w4 \<Rightarrow>
                           if result = 0 then Inr (NULL, w4)
                           else Inr (image_buffer, w4)))))"

section \<open>Notions used to state the properties\<close>

text \<open>
  The storage of a buffer with \<open>n\<close> bytes written, before an append of \<open>data\<close>: as it
  is after the growth step, and as it is after the copy.
\<close>

definition grown :: "nat \<Rightarrow> cell list \<Rightarrow> byte list \<Rightarrow> cell list" where
  "grown n cs data =
     (if length cs < n + length data then cs @ replicate (max (length data) 128) None else cs)"

definition stored :: "nat \<Rightarrow> cell list \<Rightarrow> byte list \<Rightarrow> cell list" where
  "stored n cs data =
     take n (grown n cs data) @ map Some data @ drop (n + length data) (grown n cs data)"

text \<open>
  \<open>owns w p n b cs\<close>: in \<open>w\<close>, \<open>p\<close> is a handle the allocator has handed out, its
  \<open>byte_count\<close> is \<open>n\<close>, its stretchy buffer is at \<open>b\<close> and holds the cells \<open>cs\<close> (none
  for the null buffer), of which there are at least \<open>n\<close> and at most \<open>INT_MAX\<close>.
\<close>

definition owns :: "world \<Rightarrow> addr \<Rightarrow> nat \<Rightarrow> addr \<Rightarrow> cell list \<Rightarrow> bool" where
  "owns w p n b cs \<longleftrightarrow>
     p \<noteq> NULL \<and> p \<le> brk w \<and> live w p = Some (Handle \<lparr>byte_count = n, bytes = b\<rparr>) \<and>
     (if b = NULL then cs = [] else live w b = Some (Stretchy cs)) \<and>
     n \<le> length cs \<and> length cs \<le> INT_MAX"

text \<open>
  \<open>rgba_released rgba_ptr h w\<close>: in the state \<open>w\<close> a transcode operation returns
  with, the pixel buffer at \<open>rgba_ptr\<close> is no longer allocated, releasing it with
  \<open>WebPFree\<close> was the last thing the operation did, and the returned handle \<open>h\<close>, unless
  it is null, is neither at \<open>rgba_ptr\<close> nor has \<open>rgba_ptr\<close> as its \<open>bytes\<close>.
\<close>

definition rgba_released :: "addr \<Rightarrow> addr \<Rightarrow> world \<Rightarrow> bool" where
  "rgba_released rgba_ptr h w \<longleftrightarrow>
     live w rgba_ptr = None \<and> trace w \<noteq> [] \<and> last (trace w) = Call_WebPFree rgba_ptr \<and>
     (h \<noteq> NULL \<longrightarrow> h \<noteq> rgba_ptr \<and>
        (case deref w h of Inl e \<Rightarrow> False | Inr ib \<Rightarrow> bytes ib \<noteq> rgba_ptr))"

text \<open>
  \<open>still_allocated w p\<close>: the \<open>ImageBuffer\<close> struct at \<open>p\<close> is allocated in \<open>w\<close>, and
  so is its stretchy buffer, unless that is the null buffer.
\<close>

definition still_allocated :: "world \<Rightarrow> addr \<Rightarrow> bool" where
  "still_allocated w p \<longleftrightarrow>
     (case deref w p of
        Inl e \<Rightarrow> False
      | Inr ib \<Rightarrow> (case sb_count w (bytes ib) of Inl e \<Rightarrow> False | Inr c \<Rightarrow> True))"

text \<open>An upper bound of the element count after appending the chunks to an empty buffer.\<close>

definition padded :: "byte list list \<Rightarrow> nat" where
  "padded chunks = sum_list (map (\<lambda>c. max (length c) 128) chunks)"

text \<open>
  What the caller of the module does with the pointer and the count of a handle:
  reading \<open>n\<close> bytes at address \<open>a\<close>.
\<close>

definition peek :: "world \<Rightarrow> addr \<Rightarrow> nat \<Rightarrow> fault + cell list" where
  "peek w a n =
     (if n = 0 then Inr []
      else if a = NULL then Inl NullDeref
      else case live w a of
             Some (Stretchy cs) \<Rightarrow> if n \<le> length cs then Inr (take n cs) else Inl OutOfBounds
           | Some (Block cs) \<Rightarrow> if n \<le> length cs then Inr (take n cs) else Inl OutOfBounds
           | _ \<Rightarrow> Inl InvalidPointer)"

subsection \<open>A concrete heap and concrete libraries\<close>

text \<open>The empty heap.\<close>

definition world0 :: world where
  "world0 = \<lparr>live = (\<lambda>a. None), brk = 0, trace = []\<rparr>"

text \<open>A heap in which the caller has staged four bytes of input at address 1.\<close>

definition staged :: world where
  "staged = \<lparr>live = (\<lambda>a. None)(1 \<mapsto> Block [Some 82, Some 73, Some 70, Some 70]), brk = 1, trace = []\<rparr>"

text \<open>The empty heap after \<open>createImageBuffer\<close>: one handle, at address 1.\<close>

definition world1 :: world where
  "world1 = \<lparr>live = (\<lambda>a. None)(1 \<mapsto> Handle \<lparr>byte_count = 0, bytes = NULL\<rparr>), brk = 1, trace = []\<rparr>"

text \<open>
  A library whose allocator grants every request and grows buffers in place, whose
  decoder accepts every stream of two bytes or more as a 1 by 1 red image (the probe
  alone accepts one byte), and whose encoders write fixed chunks and succeed.
\<close>

definition demo_lib :: lib where
  "demo_lib = \<lparr>grants = (\<lambda>w n. True), relocates = (\<lambda>w a. False),
     WebPGetInfo = (\<lambda>m p n. if n = 0 then None else Some (1, 1)),
     WebPDecodeRGBA = (\<lambda>m p n. if n < 2 then None else Some (1, 1, [255, 0, 0, 255])),
     png_encoder = (\<lambda>m x y c d s. ([[137, 80], [78, 71]], 1)),
     jpg_encoder = (\<lambda>m x y c d q. ([[255, 216], [255]], 1))\<rparr>"

text \<open>
  The same library with encoders that report failure: the PNG encoder before it has
  written anything (as stb_image_write does when it cannot allocate its output), the
  JPEG encoder after one chunk; buffers move when they grow.
\<close>

definition failing_lib :: lib where
  "failing_lib = demo_lib\<lparr>relocates := (\<lambda>w a. True),
     png_encoder := (\<lambda>m x y c d s. ([], 0)),
     jpg_encoder := (\<lambda>m x y c d q. ([[255, 216]], 0))\<rparr>"

text \<open>The first library with an allocator that grants requests of at most 64 bytes.\<close>

definition small_lib :: lib where
  "small_lib = demo_lib\<lparr>grants := (\<lambda>w n. n \<le> 64)\<rparr>"

section \<open>Properties of the buffer operations\<close>

lemma length_grown_ge: "n \<le> length cs \<Longrightarrow> n + length data \<le> length (grown n cs data)"
  by (auto simp: grown_def)

lemma length_stored: "n \<le> length cs \<Longrightarrow> length (stored n cs data) = length (grown n cs data)"
  using length_grown_ge [of n cs data] by (simp add: stored_def)

lemma take_stored:
  "n \<le> length cs \<Longrightarrow> take (n + length data) (stored n cs data) = take n cs @ map Some data"
  using length_grown_ge [of n cs data] by (simp add: stored_def grown_def)

lemma owns_deref: "owns w p n b cs \<Longrightarrow> deref w p = Inr \<lparr>byte_count = n, bytes = b\<rparr>"
  by (simp add: owns_def deref_def)

lemma owns_sb_count: "owns w p n b cs \<Longrightarrow> sb_count w b = Inr (length cs)"
  by (auto simp: owns_def sb_count_def)

lemma sb_add_Inr:
  assumes "sb_add l w b k = Inr (b1, w1)"
    and "if b = NULL then cs = [] else live w b = Some (Stretchy cs)"
  shows "b1 \<noteq> NULL \<and> live w1 b1 = Some (Stretchy (cs @ replicate k None)) \<and>
         length cs + k \<le> INT_MAX \<and> (b1 = b \<or> b1 = Suc (brk w)) \<and>
         brk w \<le> brk w1 \<and> trace w1 = trace w \<and>
         (\<forall>a. a \<noteq> b \<and> a \<noteq> b1 \<longrightarrow> live w1 a = live w a)"
  using assms
  by (auto simp: sb_add_def alloc_def NULL_def split: if_splits)

lemma memcpy_Inr:
  assumes "memcpy w a off data = Inr w'" and "live w a = Some (Stretchy cs)" and "a \<noteq> NULL"
  shows "(data \<noteq> [] \<longrightarrow> off + length data \<le> length cs) \<and>
         live w' = (live w)(a \<mapsto> Stretchy (take off cs @ map Some data @ drop (off + length data) cs)) \<and>
         brk w' = brk w \<and> trace w' = trace w"
  using assms
  by (auto simp: memcpy_def split: if_splits)

lemma memcpy_NULL: "memcpy w NULL off data = Inr w' \<Longrightarrow> data = [] \<and> w' = w"
  by (auto simp: memcpy_def split: if_splits)

lemma size_t_wrap_le: "size_t_wrap k \<le> k"
  by (simp add: size_t_wrap_def)

lemma size_t_wrap_id: "k < 4294967296 \<Longrightarrow> size_t_wrap k = k"
  by (simp add: size_t_wrap_def)

lemma write_step:
  assumes own: "owns w p n b cs" and run: "write_image_to_mem l w p data = Inr w'"
  shows "\<exists>b'. owns w' p (n + length data) b' (stored n cs data) \<and> brk w \<le> brk w' \<and>
           (b' = b \<or> b' = Suc (brk w)) \<and> trace w' = trace w \<and>
           (\<forall>a. a \<noteq> p \<and> a \<noteq> b \<and> a \<noteq> b' \<longrightarrow> live w' a = live w a)"
proof -
  have p: "p \<noteq> NULL" "p \<le> brk w" "live w p = Some (Handle \<lparr>byte_count = n, bytes = b\<rparr>)"
    and st: "if b = NULL then cs = [] else live w b = Some (Stretchy cs)"
    and n: "n \<le> length cs" "length cs \<le> INT_MAX"
    using own by (simp_all add: owns_def)
  have pb: "p \<noteq> b"
    using p st by (auto split: if_splits)
  define g where "g = (if length cs < size_t_wrap (n + length data)
      then sb_add l w b (if length data < 128 then 128 else length data) else Inr (b, w))"
  have "\<exists>b1 w1 w2. g = Inr (b1, w1) \<and> memcpy w1 b1 n data = Inr w2 \<and>
          w' = w2\<lparr>live := (live w2)(p \<mapsto>
               Handle \<lparr>byte_count = size_t_wrap (n + length data), bytes = b1\<rparr>)\<rparr>"
    using run
    by (auto simp: write_image_to_mem_def owns_deref [OF own] owns_sb_count [OF own] g_def Let_def
        split: sum.splits prod.splits if_splits)
  then obtain b1 w1 w2 where g: "g = Inr (b1, w1)"
    and cp: "memcpy w1 b1 n data = Inr w2"
    and w': "w' = w2\<lparr>live := (live w2)(p \<mapsto>
               Handle \<lparr>byte_count = size_t_wrap (n + length data), bytes = b1\<rparr>)\<rparr>"
    by blast
  show ?thesis
  proof (cases "length cs < size_t_wrap (n + length data)")
    case True
    have more: "length cs < n + length data"
      using True size_t_wrap_le [of "n + length data"] by simp
    have mx: "(if length data < 128 then 128 else length data) = max (length data) 128"
      by (simp add: max_def)
    have add: "sb_add l w b (max (length data) 128) = Inr (b1, w1)"
      using g True unfolding g_def mx by simp
    note A = sb_add_Inr [OF add st]
    have b1p: "b1 \<noteq> p"
      using A p pb by auto
    have b1: "b1 \<noteq> NULL" "live w1 b1 = Some (Stretchy (grown n cs data))"
      using A more by (simp_all add: grown_def)
    note M = memcpy_Inr [OF cp b1(2) b1(1)]
    have small: "n + length data < 4294967296"
      using A n by (simp add: INT_MAX_def max_def split: if_splits)
    have "owns w' p (n + length data) b1 (stored n cs data)"
      using A M p b1 b1p n more small
      by (simp add: owns_def w' stored_def size_t_wrap_id grown_def)
    moreover have "\<forall>a. a \<noteq> p \<and> a \<noteq> b \<and> a \<noteq> b1 \<longrightarrow> live w' a = live w a"
      using A M by (simp add: w')
    ultimately show ?thesis
      using A M by (auto simp: w')
  next
    case False
    have g': "b1 = b" "w1 = w"
      using g False by (simp_all add: g_def)
    show ?thesis
    proof (cases "b = NULL")
      case True
      have "data = []" "w2 = w"
        using memcpy_NULL cp g' True by auto
      then show ?thesis
        using p st n True g' by (simp add: owns_def w' stored_def grown_def size_t_wrap_id)
    next
      case nn: False
      have lb: "live w b = Some (Stretchy cs)"
        using st nn by simp
      note M = memcpy_Inr [OF cp [unfolded g'] lb nn]
      have fit: "n + length data \<le> length cs"
        using M n by (cases "data = []") auto
      have small: "n + length data < 4294967296"
        using fit n by (simp add: INT_MAX_def)
      have "owns w' p (n + length data) b (stored n cs data)"
        using M p pb nn n fit small
        by (simp add: owns_def w' g' stored_def size_t_wrap_id grown_def)
      moreover have "\<forall>a. a \<noteq> p \<and> a \<noteq> b \<longrightarrow> live w' a = live w a"
        using M by (simp add: w' g')
      ultimately show ?thesis
        using M by (auto simp: w' g')
    qed
  qed
qed


lemma padded_Nil: "padded [] = 0"
  by (simp add: padded_def)

lemma padded_Cons: "padded (c # chunks) = max (length c) 128 + padded chunks"
  by (simp add: padded_def)

lemma length_grown_le: "length (grown n cs data) \<le> length cs + max (length data) 128"
  by (simp add: grown_def)

lemma sb_add_total:
  assumes "if b = NULL then cs = [] else live w b = Some (Stretchy cs)"
    and "length cs + k \<le> INT_MAX" and "grants l w (length cs + k)"
  shows "\<exists>b1 w1. sb_add l w b k = Inr (b1, w1)"
  using assms by (auto simp: sb_add_def alloc_def split: if_splits)

lemma memcpy_total:
  assumes "live w a = Some (Stretchy cs)" and "a \<noteq> NULL" and "off + length data \<le> length cs"
  shows "\<exists>w'. memcpy w a off data = Inr w'"
  using assms by (simp add: memcpy_def)

lemma write_total:
  assumes own: "owns w p n b cs"
    and need: "length cs < n + length data \<Longrightarrow>
      grants l w (length cs + max (length data) 128) \<and> length cs + max (length data) 128 \<le> INT_MAX"
  shows "\<exists>w'. write_image_to_mem l w p data = Inr w'"
proof -
  have st: "if b = NULL then cs = [] else live w b = Some (Stretchy cs)"
    and n: "n \<le> length cs" "length cs \<le> INT_MAX"
    using own by (simp_all add: owns_def)
  have mx: "(if length data < 128 then 128 else length data) = max (length data) 128"
    by (simp add: max_def)
  show ?thesis
  proof (cases "length cs < n + length data")
    case True
    have gr: "grants l w (length cs + max (length data) 128)"
      and fit: "length cs + max (length data) 128 \<le> INT_MAX"
      using need [OF True] by simp_all
    have small: "n + length data < 4294967296"
      using n fit by (simp add: INT_MAX_def)
    obtain b1 w1 where add: "sb_add l w b (max (length data) 128) = Inr (b1, w1)"
      using sb_add_total [OF st fit gr] by blast
    note A = sb_add_Inr [OF add st]
    have "n + length data \<le> length (cs @ replicate (max (length data) 128) (None :: cell))"
      using n by simp
    then obtain w2 where "memcpy w1 b1 n data = Inr w2"
      using memcpy_total [of w1 b1 _ n data] A by blast
    then show ?thesis
      using True add small
      by (simp add: write_image_to_mem_def owns_deref [OF own] owns_sb_count [OF own] Let_def
          mx size_t_wrap_id)
  next
    case False
    have small: "n + length data < 4294967296"
      using n False by (simp add: INT_MAX_def)
    have "\<exists>w2. memcpy w b n data = Inr w2"
    proof (cases "b = NULL")
      case True
      then have "data = []"
        using st False by simp
      then show ?thesis
        by (simp add: memcpy_def)
    next
      case nn: False
      then show ?thesis
        using memcpy_total [of w b cs n data] st False by simp
    qed
    then show ?thesis
      using False small
      by (auto simp: write_image_to_mem_def owns_deref [OF own] owns_sb_count [OF own] Let_def
          size_t_wrap_id)
  qed
qed

lemma feed_append:
  "feed f w p (xs @ ys) = (case feed f w p xs of Inl e \<Rightarrow> Inl e | Inr w1 \<Rightarrow> feed f w1 p ys)"
  by (induction xs arbitrary: w) (auto split: sum.splits)

lemma feed_owns:
  assumes "owns w p n b cs" and "take n cs = map Some xs"
    and "feed (write_image_to_mem l) w p chunks = Inr w'"
  shows "\<exists>b' cs'. owns w' p (n + length (concat chunks)) b' cs' \<and>
           take (n + length (concat chunks)) cs' = map Some (xs @ concat chunks) \<and>
           brk w \<le> brk w' \<and> trace w' = trace w \<and> (b' = b \<or> brk w < b') \<and>
           length cs' \<le> length cs + padded chunks \<and>
           (\<forall>a. a \<le> brk w \<and> a \<noteq> p \<and> a \<noteq> b \<longrightarrow> live w' a = live w a)"
  using assms
proof (induction chunks arbitrary: w n b cs xs)
  case Nil
  then show ?case
    by (auto simp: padded_Nil)
next
  case (Cons data rest)
  from Cons.prems(3) obtain w1 where w1: "write_image_to_mem l w p data = Inr w1"
    and rest: "feed (write_image_to_mem l) w1 p rest = Inr w'"
    by (auto split: sum.splits)
  have n: "n \<le> length cs"
    using Cons.prems(1) by (simp add: owns_def)
  from write_step [OF Cons.prems(1) w1] obtain b1 where
    own1: "owns w1 p (n + length data) b1 (stored n cs data)" and brk1: "brk w \<le> brk w1"
    and b1: "b1 = b \<or> b1 = Suc (brk w)" and tr1: "trace w1 = trace w"
    and fr1: "\<forall>a. a \<noteq> p \<and> a \<noteq> b \<and> a \<noteq> b1 \<longrightarrow> live w1 a = live w a"
    by blast
  have tk: "take (n + length data) (stored n cs data) = map Some (xs @ data)"
    using take_stored [OF n, of data] Cons.prems(2) by simp
  from Cons.IH [OF own1 tk rest] obtain b' cs' where
    own': "owns w' p (n + length data + length (concat rest)) b' cs'"
    and tk': "take (n + length data + length (concat rest)) cs' = map Some ((xs @ data) @ concat rest)"
    and brk': "brk w1 \<le> brk w'" and tr': "trace w' = trace w1"
    and b': "b' = b1 \<or> brk w1 < b'"
    and len': "length cs' \<le> length (stored n cs data) + padded rest"
    and fr': "\<forall>a. a \<le> brk w1 \<and> a \<noteq> p \<and> a \<noteq> b1 \<longrightarrow> live w' a = live w1 a"
    by blast
  have "length cs' \<le> length cs + padded (data # rest)"
    using len' length_stored [OF n, of data] length_grown_le [of n cs data]
    by (simp add: padded_Cons)
  moreover have "b' = b \<or> brk w < b'"
    using b' b1 brk1 by auto
  moreover have "\<forall>a. a \<le> brk w \<and> a \<noteq> p \<and> a \<noteq> b \<longrightarrow> live w' a = live w a"
    using fr1 fr' b1 brk1 by auto
  ultimately show ?case
    using own' tk' brk1 brk' tr1 tr' by (auto simp: add.assoc)
qed

lemma feed_total:
  assumes "owns w p n b cs" and "\<forall>w k. grants l w k" and "length cs + padded chunks \<le> INT_MAX"
  shows "\<exists>w'. feed (write_image_to_mem l) w p chunks = Inr w'"
  using assms
proof (induction chunks arbitrary: w n b cs)
  case Nil
  then show ?case by simp
next
  case (Cons data rest)
  have n: "n \<le> length cs"
    using Cons.prems(1) by (simp add: owns_def)
  have fit: "length cs + max (length data) 128 \<le> INT_MAX"
    using Cons.prems(3) by (simp add: padded_Cons)
  obtain w1 where w1: "write_image_to_mem l w p data = Inr w1"
    using write_total [OF Cons.prems(1)] fit Cons.prems(2) by blast
  from write_step [OF Cons.prems(1) w1] obtain b1 where
    own1: "owns w1 p (n + length data) b1 (stored n cs data)"
    by blast
  have "length (stored n cs data) + padded rest \<le> INT_MAX"
    using Cons.prems(3) length_stored [OF n, of data] length_grown_le [of n cs data]
    by (simp add: padded_Cons)
  from Cons.IH [OF own1 Cons.prems(2) this] show ?case
    using w1 by simp
qed

lemma createImageBuffer_Inr:
  assumes "createImageBuffer l w0 = Inr (p, w1)"
  shows "owns w1 p 0 NULL []" and "p = Suc (brk w0)" and "brk w1 = p" and "trace w1 = trace w0"
    and "\<forall>a. a \<noteq> p \<longrightarrow> live w1 a = live w0 a"
  using assms
  by (auto simp: createImageBuffer_def malloc_def alloc_def owns_def NULL_def split: if_splits)

lemma createImageBuffer_total:
  "grants l w0 sizeof_ImageBuffer \<Longrightarrow> \<exists>p w1. createImageBuffer l w0 = Inr (p, w1)"
  by (simp add: createImageBuffer_def malloc_def alloc_def NULL_def)

lemma get_num_owns: "owns w p n b cs \<Longrightarrow> get_num_bytes_from_handle w p = Inr n"
  by (simp add: get_num_bytes_from_handle_def owns_deref)

lemma get_bytes_owns: "owns w p n b cs \<Longrightarrow> get_image_bytes_from_handle w p = Inr b"
  by (simp add: get_image_bytes_from_handle_def owns_deref)

lemma peek_owns: "owns w p n b cs \<Longrightarrow> peek w b n = Inr (take n cs)"
  by (auto simp: owns_def peek_def)

lemma createImageBuffer_demo:
  "\<exists>w1. createImageBuffer demo_lib world0 = Inr (1, w1)"
  by (simp add: createImageBuffer_def malloc_def alloc_def demo_lib_def world0_def NULL_def)


lemma owns_intro:
  assumes "deref w p = Inr ib" and "p \<le> brk w" and "sb_count w (bytes ib) = Inr c"
    and "byte_count ib \<le> c" and "c \<le> INT_MAX"
  shows "\<exists>cs. owns w p (byte_count ib) (bytes ib) cs \<and> length cs = c"
proof (cases "bytes ib = NULL")
  case True
  then have "owns w p (byte_count ib) (bytes ib) []"
    using assms
    by (auto simp: owns_def deref_def sb_count_def split: if_splits option.splits obj.splits)
  moreover have "c = 0"
    using assms(3) True by (simp add: sb_count_def)
  ultimately show ?thesis
    by auto
next
  case False
  then obtain cs where "live w (bytes ib) = Some (Stretchy cs)" and "length cs = c"
    using assms(3) by (auto simp: sb_count_def split: option.splits obj.splits)
  then have "owns w p (byte_count ib) (bytes ib) cs"
    using assms False
    by (auto simp: owns_def deref_def split: if_splits option.splits obj.splits)
  then show ?thesis
    using \<open>length cs = c\<close> by auto
qed

lemma owns_observed:
  assumes "owns w p n b cs"
  shows "deref w p = Inr \<lparr>byte_count = n, bytes = b\<rparr> \<and>
         sb_count w (bytes \<lparr>byte_count = n, bytes = b\<rparr>) = Inr (length cs) \<and> n \<le> length cs"
  using owns_deref [OF assms] owns_sb_count [OF assms] assms by (simp add: owns_def)

section \<open>Properties of decoding and transcoding\<close>

lemma live_emit: "live (emit e w) = live w" and brk_emit: "brk (emit e w) = brk w"
  and trace_emit: "trace (emit e w) = trace w @ [e]"
  by (simp_all add: emit_def)

lemma owns_emit: "owns (emit e w) p n b cs = owns w p n b cs"
  by (simp add: owns_def emit_def)

lemma decode_failure:
  assumes "WebPGetInfo l (live w) q sz = None \<or> WebPDecodeRGBA l (live w) q sz = None"
  shows "\<exists>wd ht w'. decode_webp_to_rgba l w q sz = ((NULL, wd, ht), w') \<and>
           live w' = live w \<and> brk w' = brk w"
  using assms
  by (auto simp: decode_webp_to_rgba_def Let_def live_emit brk_emit split: option.splits)

lemma decode_success:
  assumes "decode_webp_to_rgba l w q sz = ((r, wd, ht), w1)" and "r \<noteq> NULL"
  shows "r = Suc (brk w) \<and> brk w1 = r \<and>
         (\<exists>d. WebPGetInfo l (live w) q sz = Some d) \<and>
         (\<exists>px. WebPDecodeRGBA l (live w) q sz = Some (wd, ht, px) \<and>
               live w1 = (live w)(r \<mapsto> Block (map Some px))) \<and>
         trace w1 = trace w @ (if q = NULL
             then [Stdout ''decode_webp_to_rgba() called with NULL webp_ptr''] else []) @
           [Call_WebPGetInfo q sz, Call_WebPDecodeRGBA q sz]"
  using assms
  by (auto simp: decode_webp_to_rgba_def Let_def live_emit brk_emit trace_emit alloc_def
      split: option.splits if_splits)

lemma decode_total:
  assumes "WebPGetInfo l (live w) q sz = Some d" and "WebPDecodeRGBA l (live w) q sz = Some (wd, ht, px)"
  shows "\<exists>w1. decode_webp_to_rgba l w q sz = ((Suc (brk w), wd, ht), w1)"
  using assms
  by (auto simp: decode_webp_to_rgba_def Let_def live_emit brk_emit alloc_def split: option.splits)

lemma WebPFree_Block:
  assumes "live w r = Some (Block cs)" and "r \<noteq> NULL"
  shows "\<exists>w'. WebPFree w r = Inr w' \<and> live w' = (live w)(r := None) \<and> brk w' = brk w \<and>
           trace w' = trace w @ [Call_WebPFree r]"
  using assms by (simp add: WebPFree_def free_def emit_def)

lemma owns_remove:
  assumes "owns w p n b cs" and "r \<noteq> p" and "r \<noteq> b" and "live w' = (live w)(r := None)"
    and "brk w' = brk w"
  shows "owns w' p n b cs"
  using assms by (auto simp: owns_def)

lemma transcode_rest:
  assumes dec: "decode_webp_to_rgba l w q sz = ((r, wd, ht), w1)" and r: "r \<noteq> NULL"
    and cr: "createImageBuffer l w1 = Inr (p, w2)"
    and fd: "feed (write_image_to_mem l) (emit e w2) p chunks = Inr w3"
  shows "\<exists>w4 b cs. WebPFree w3 r = Inr w4 \<and> live w4 r = None \<and> p \<noteq> r \<and> b \<noteq> r \<and>
           owns w4 p (length (concat chunks)) b cs \<and>
           take (length (concat chunks)) cs = map Some (concat chunks) \<and>
           trace w4 = trace w1 @ [e, Call_WebPFree r] \<and>
           (\<forall>a. a \<le> brk w \<and> a \<noteq> NULL \<longrightarrow> live w4 a = live w a)"
proof -
  note D = decode_success [OF dec r]
  note C = createImageBuffer_Inr [OF cr]
  have own2: "owns (emit e w2) p 0 NULL []"
    using C(1) by (simp add: owns_emit)
  from feed_owns [OF own2 _ fd, of "[]"] obtain b cs where
    own3: "owns w3 p (length (concat chunks)) b cs"
    and tk: "take (length (concat chunks)) cs = map Some (concat chunks)"
    and tr3: "trace w3 = trace (emit e w2)"
    and b: "b = NULL \<or> brk (emit e w2) < b"
    and fr: "\<forall>a. a \<le> brk (emit e w2) \<and> a \<noteq> p \<and> a \<noteq> NULL \<longrightarrow> live w3 a = live (emit e w2) a"
    by auto
  have pr: "p \<noteq> r" and rb: "r \<le> brk w2"
    using D C by auto
  have br: "b \<noteq> r"
    using b r rb by (auto simp: brk_emit)
  obtain px where live1: "live w1 r = Some (Block (map Some px))"
    using D by auto
  have live3: "live w3 r = Some (Block (map Some px))"
    using fr rb pr r C live1 by (simp add: brk_emit live_emit)
  from WebPFree_Block [OF live3 r] obtain w4 where
    w4: "WebPFree w3 r = Inr w4" and l4: "live w4 = (live w3)(r := None)"
    and b4: "brk w4 = brk w3" and t4: "trace w4 = trace w3 @ [Call_WebPFree r]"
    by blast
  have own4: "owns w4 p (length (concat chunks)) b cs"
    using owns_remove [OF own3 _ _ l4 b4] pr br by auto
  have "live w4 a = live w a" if a: "a \<le> brk w" "a \<noteq> NULL" for a
  proof -
    have "a \<noteq> p" "a \<noteq> r" "a \<le> brk w2"
      using a D C by auto
    then have "live w3 a = live w2 a"
      using fr a by (simp add: brk_emit live_emit)
    then show ?thesis
      using \<open>a \<noteq> p\<close> \<open>a \<noteq> r\<close> D C(5) l4 by auto
  qed
  then show ?thesis
    using w4 l4 pr br own4 tk t4 tr3 C(4) by (auto simp: trace_emit)
qed

lemma png_unfold:
  assumes "decode_webp_to_rgba l w q sz = ((r, wd, ht), w1)" and "r \<noteq> NULL"
    and "createImageBuffer l w1 = Inr (p, w2)"
    and "png_encoder l (live w2) wd ht 4 r (wd * 4) = (chunks, res)"
  shows "get_png_handle_from_webp l w q sz =
     (case feed (write_image_to_mem l) (emit (Call_stbi_write_png p wd ht 4 r (wd * 4)) w2) p chunks of
        Inl x \<Rightarrow> Inl x
      | Inr w3 \<Rightarrow> (case WebPFree w3 r of
                     Inl x \<Rightarrow> Inl x
                   | Inr w4 \<Rightarrow> Inr (if res = 0 then NULL else p, w4)))"
  using assms
  by (simp add: get_png_handle_from_webp_def stbi_write_png_to_func_def Let_def live_emit
      split: sum.splits)

lemma jpg_unfold:
  assumes "decode_webp_to_rgba l w q sz = ((r, wd, ht), w1)" and "r \<noteq> NULL"
    and "createImageBuffer l w1 = Inr (p, w2)"
    and "jpg_encoder l (live w2) wd ht 4 r 100 = (chunks, res)"
  shows "get_jpg_handle_from_webp l w q sz =
     (case feed (write_image_to_mem l) (emit (Call_stbi_write_jpg p wd ht 4 r 100) w2) p chunks of
        Inl x \<Rightarrow> Inl x
      | Inr w3 \<Rightarrow> (case WebPFree w3 r of
                     Inl x \<Rightarrow> Inl x
                   | Inr w4 \<Rightarrow> Inr (if res = 0 then NULL else p, w4)))"
  using assms
  by (simp add: get_jpg_handle_from_webp_def stbi_write_jpg_to_func_def Let_def live_emit
      split: sum.splits)

lemma transcode_result:
  assumes dec: "decode_webp_to_rgba l w q sz = ((r, wd, ht), w1)" and r: "r \<noteq> NULL"
    and cr: "createImageBuffer l w1 = Inr (p, w2)"
    and run: "(case feed (write_image_to_mem l) (emit e w2) p chunks of
        Inl x \<Rightarrow> Inl x
      | Inr w3 \<Rightarrow> (case WebPFree w3 r of
                     Inl x \<Rightarrow> Inl x
                   | Inr w4 \<Rightarrow> Inr (if res = 0 then NULL else p, w4))) = Inr (h, w')"
  shows "h = (if res = (0 :: int) then NULL else p) \<and> live w' r = None \<and> p \<noteq> r \<and>
         (\<exists>b cs. b \<noteq> r \<and> owns w' p (length (concat chunks)) b cs \<and>
            take (length (concat chunks)) cs = map Some (concat chunks)) \<and>
         trace w' = trace w1 @ [e, Call_WebPFree r] \<and>
         (\<forall>a. a \<le> brk w \<and> a \<noteq> NULL \<longrightarrow> live w' a = live w a)"
proof -
  from run obtain w3 where fd: "feed (write_image_to_mem l) (emit e w2) p chunks = Inr w3"
    by (auto split: sum.splits)
  from transcode_rest [OF dec r cr fd] obtain w4 b cs where
    "WebPFree w3 r = Inr w4" "live w4 r = None" "p \<noteq> r" "b \<noteq> r"
    "owns w4 p (length (concat chunks)) b cs"
    "take (length (concat chunks)) cs = map Some (concat chunks)"
    "trace w4 = trace w1 @ [e, Call_WebPFree r]"
    "\<forall>a. a \<le> brk w \<and> a \<noteq> NULL \<longrightarrow> live w4 a = live w a"
    by blast
  then show ?thesis
    using run fd by auto
qed

lemma transcode_total:
  assumes dec: "decode_webp_to_rgba l w q sz = ((r, wd, ht), w1)" and r: "r \<noteq> NULL"
    and cr: "createImageBuffer l w1 = Inr (p, w2)"
    and gr: "\<forall>w k. grants l w k" and fit: "padded chunks \<le> INT_MAX"
  shows "\<exists>h w'. (case feed (write_image_to_mem l) (emit e w2) p chunks of
        Inl x \<Rightarrow> Inl x
      | Inr w3 \<Rightarrow> (case WebPFree w3 r of
                     Inl x \<Rightarrow> Inl x
                   | Inr w4 \<Rightarrow> Inr (if res = (0 :: int) then NULL else p, w4))) = Inr (h, w')"
proof -
  have own2: "owns (emit e w2) p 0 NULL []"
    using createImageBuffer_Inr(1) [OF cr] by (simp add: owns_emit)
  from feed_total [OF own2 gr, of chunks] fit obtain w3 where
    fd: "feed (write_image_to_mem l) (emit e w2) p chunks = Inr w3"
    by auto
  from transcode_rest [OF dec r cr fd] obtain w4 where "WebPFree w3 r = Inr w4"
    by blast
  then show ?thesis
    using fd by simp
qed

lemma rgba_released_intro:
  assumes "live w' r = None" and "p \<noteq> r" and "b \<noteq> r" and "owns w' p n b cs"
    and "trace w' = t @ [e, Call_WebPFree r]" and "h = NULL \<or> h = p"
  shows "rgba_released r h w'"
  using assms owns_deref [of w' p n b cs] by (auto simp: rgba_released_def)

lemma still_allocated_owns: "owns w p n b cs \<Longrightarrow> still_allocated w p"
  by (simp add: still_allocated_def owns_deref owns_sb_count)

lemmas eval_defs = get_png_handle_from_webp_def get_jpg_handle_from_webp_def decode_webp_to_rgba_def
  createImageBuffer_def stbi_write_png_to_func_def stbi_write_jpg_to_func_def write_image_to_mem_def
  WebPFree_def free_def malloc_def alloc_def emit_def sb_count_def sb_add_def sb_free_def memcpy_def
  deref_def NULL_def INT_MAX_def size_t_wrap_def to_size_t_def sizeof_ImageBuffer_def
  demo_lib_def failing_lib_def staged_def world0_def world1_def

lemma decode_demo: "\<exists>w1. decode_webp_to_rgba demo_lib staged 1 4 = ((2, 1, 1), w1)"
  by (simp add: eval_defs)

lemma failing_decode:
  "\<exists>w1 w2. decode_webp_to_rgba failing_lib staged 1 4 = ((2, 1, 1), w1) \<and>
     createImageBuffer failing_lib w1 = Inr (3, w2)"
  by (simp add: eval_defs)

lemma failing_png:
  "\<exists>w'. get_png_handle_from_webp failing_lib staged 1 4 = Inr (NULL, w') \<and>
     live w' 2 = None \<and> live w' 3 = Some (Handle \<lparr>byte_count = 0, bytes = NULL\<rparr>)"
  by (simp add: eval_defs)

lemma failing_jpg:
  "\<exists>w'. get_jpg_handle_from_webp failing_lib staged 1 4 = Inr (NULL, w') \<and>
     live w' 2 = None \<and> live w' 3 = Some (Handle \<lparr>byte_count = 2, bytes = 4\<rparr>) \<and>
     live w' 4 = Some (Stretchy (Some 255 # Some 216 # replicate 126 None))"
  by (simp add: eval_defs)

lemma decode_trace:
  assumes "decode_webp_to_rgba l w q sz = (res, w1)"
  shows "trace w1 = trace w @
     (if q = NULL then [Stdout ''decode_webp_to_rgba() called with NULL webp_ptr''] else []) @
     [Call_WebPGetInfo q sz] @
     (case WebPGetInfo l (live w) q sz of
        None \<Rightarrow> [Stderr (''WebPGetInfo() returned an error'' @ [CHR 0x0A])]
      | Some d \<Rightarrow> [Call_WebPDecodeRGBA q sz])"
  using assms
  by (auto simp: decode_webp_to_rgba_def Let_def live_emit trace_emit alloc_def
      split: option.splits if_splits)

lemma decode_null_iff:
  assumes "decode_webp_to_rgba l w q sz = ((r, wd, ht), w1)"
  shows "r = NULL \<longleftrightarrow>
     WebPGetInfo l (live w) q sz = None \<or> WebPDecodeRGBA l (live w) q sz = None"
  using assms
  by (auto simp: decode_webp_to_rgba_def Let_def live_emit alloc_def NULL_def
      split: option.splits if_splits)

lemma demo_jpg:
  "\<exists>w'. get_jpg_handle_from_webp demo_lib staged 1 4 = Inr (3, w') \<and>
     deref w' 3 = Inr \<lparr>byte_count = 3, bytes = 4\<rparr> \<and>
     sb_count w' 4 = Inr 128 \<and> live w' 2 = None \<and> live w' 1 = live staged 1"
  by (simp add: eval_defs)

lemma demo_png:
  "\<exists>w'. get_png_handle_from_webp demo_lib staged 1 4 = Inr (3, w') \<and>
     live w' 3 = Some (Handle \<lparr>byte_count = 4, bytes = 4\<rparr>) \<and> live w' 5 = None"
  by (simp add: eval_defs)

lemma demo_null:
  "\<exists>w'. get_png_handle_from_webp demo_lib staged NULL 4 = Inr (3, w')"
  "WebPGetInfo demo_lib (live staged) NULL 4 \<noteq> None"
  by (simp_all add: eval_defs)

section \<open>The claims\<close>

text \<open>
  Claim C1, as the code has it. When decoding succeeds and the PNG or JPEG encoder
  reports failure, \<open>get_png_handle_from_webp\<close> and \<open>get_jpg_handle_from_webp\<close> return
  \<open>NULL\<close>, as the claim says, but the \<open>ImageBuffer\<close> they created is not released: at
  the return the struct is still allocated, and so is the stretchy buffer holding what
  the encoder wrote before it failed. The failure path returns without calling
  \<open>release_image_handle\<close>, and with the \<open>NULL\<close> the last pointer to the struct is lost.
\<close>

theorem encode_failure_keeps_handle:
  assumes dec: "decode_webp_to_rgba l w webp_ptr sz = ((rgba_ptr, width, height), w1)"
    and r: "rgba_ptr \<noteq> NULL"
    and cr: "createImageBuffer l w1 = Inr (image_buffer, w2)"
  shows "(\<forall>h w'. snd (png_encoder l (live w2) width height 4 rgba_ptr (width * 4)) = 0 \<and>
            get_png_handle_from_webp l w webp_ptr sz = Inr (h, w') \<longrightarrow>
            h = NULL \<and> still_allocated w' image_buffer) \<and>
         (\<forall>h w'. snd (jpg_encoder l (live w2) width height 4 rgba_ptr 100) = 0 \<and>
            get_jpg_handle_from_webp l w webp_ptr sz = Inr (h, w') \<longrightarrow>
            h = NULL \<and> still_allocated w' image_buffer)"
proof -
  have png: "h = NULL \<and> still_allocated w' image_buffer"
    if res: "snd (png_encoder l (live w2) width height 4 rgba_ptr (width * 4)) = 0"
      and run: "get_png_handle_from_webp l w webp_ptr sz = Inr (h, w')" for h w'
  proof -
    obtain chunks where enc: "png_encoder l (live w2) width height 4 rgba_ptr (width * 4) = (chunks, 0)"
      using res by (cases "png_encoder l (live w2) width height 4 rgba_ptr (width * 4)") auto
    from transcode_result [OF dec r cr run [unfolded png_unfold [OF dec r cr enc]]]
    show ?thesis
      using still_allocated_owns by auto
  qed
  have jpg: "h = NULL \<and> still_allocated w' image_buffer"
    if res: "snd (jpg_encoder l (live w2) width height 4 rgba_ptr 100) = 0"
      and run: "get_jpg_handle_from_webp l w webp_ptr sz = Inr (h, w')" for h w'
  proof -
    obtain chunks where enc: "jpg_encoder l (live w2) width height 4 rgba_ptr 100 = (chunks, 0)"
      using res by (cases "jpg_encoder l (live w2) width height 4 rgba_ptr 100") auto
    from transcode_result [OF dec r cr run [unfolded jpg_unfold [OF dec r cr enc]]]
    show ?thesis
      using still_allocated_owns by auto
  qed
  show ?thesis
    using png jpg by blast
qed

theorem encode_failure_keeps_handle_witness:
  "(\<exists>w'. get_png_handle_from_webp failing_lib staged 1 4 = Inr (NULL, w') \<and>
      live w' 2 = None \<and> live w' 3 = Some (Handle \<lparr>byte_count = 0, bytes = NULL\<rparr>) \<and>
      still_allocated w' 3) \<and>
   (\<exists>w'. get_jpg_handle_from_webp failing_lib staged 1 4 = Inr (NULL, w') \<and>
      live w' 2 = None \<and> live w' 3 = Some (Handle \<lparr>byte_count = 2, bytes = 4\<rparr>) \<and>
      live w' 4 = Some (Stretchy (Some 255 # Some 216 # replicate 126 None)) \<and>
      still_allocated w' 3)"
proof -
  obtain w1 w2 where d: "decode_webp_to_rgba failing_lib staged 1 4 = ((2, 1, 1), w1)"
    and c: "createImageBuffer failing_lib w1 = Inr (3, w2)"
    using failing_decode by blast
  have r: "2 \<noteq> NULL"
    by (simp add: NULL_def)
  have z: "snd (png_encoder failing_lib (live w2) 1 1 4 2 (1 * 4)) = 0"
    "snd (jpg_encoder failing_lib (live w2) 1 1 4 2 100) = 0"
    by (simp_all add: failing_lib_def demo_lib_def)
  from encode_failure_keeps_handle [OF d r c] z failing_png failing_jpg show ?thesis
    by blast
qed

text \<open>
  Claim C2. Starting from a freshly created \<open>ImageBuffer\<close>, before and after every
  call of \<open>write_image_to_mem\<close> in a sequence of appends the element count
  \<open>sb_count(bytes)\<close> is at least \<open>byte_count\<close>; no call decreases \<open>byte_count\<close> (it
  adds the chunk's size); and the bytes copied by the \<open>memcpy\<close> of each call, from
  offset \<open>byte_count\<close> on, end within the grown buffer. The appends complete whenever
  the allocator grants the requests and the element count stays an \<open>int\<close>; the rest
  holds at every call of every run that completes.
\<close>

theorem append_invariant:
  assumes "createImageBuffer l w0 = Inr (p, w1)"
  shows "((\<forall>w k. grants l w k) \<and> padded chunks \<le> INT_MAX \<longrightarrow>
            (\<exists>w2. feed (write_image_to_mem l) w1 p chunks = Inr w2)) \<and>
         (\<forall>w2 k. feed (write_image_to_mem l) w1 p chunks = Inr w2 \<and> k < length chunks \<longrightarrow>
            (\<exists>wa wb iba ibb ca cb.
               feed (write_image_to_mem l) w1 p (take k chunks) = Inr wa \<and>
               write_image_to_mem l wa p (chunks ! k) = Inr wb \<and>
               feed (write_image_to_mem l) w1 p (take (Suc k) chunks) = Inr wb \<and>
               deref wa p = Inr iba \<and> sb_count wa (bytes iba) = Inr ca \<and> byte_count iba \<le> ca \<and>
               deref wb p = Inr ibb \<and> sb_count wb (bytes ibb) = Inr cb \<and> byte_count ibb \<le> cb \<and>
               byte_count iba \<le> byte_count ibb \<and>
               byte_count ibb = byte_count iba + length (chunks ! k) \<and>
               byte_count iba + length (chunks ! k) \<le> cb))"
proof -
  let ?f = "write_image_to_mem l"
  have own: "owns w1 p 0 NULL []"
    using createImageBuffer_Inr [OF assms] by blast
  have total: "(\<forall>w k. grants l w k) \<and> padded chunks \<le> INT_MAX \<longrightarrow>
            (\<exists>w2. feed ?f w1 p chunks = Inr w2)"
    using feed_total [OF own, of l chunks] by simp
  have part: "\<exists>wa wb iba ibb ca cb.
               feed ?f w1 p (take k chunks) = Inr wa \<and>
               ?f wa p (chunks ! k) = Inr wb \<and>
               feed ?f w1 p (take (Suc k) chunks) = Inr wb \<and>
               deref wa p = Inr iba \<and> sb_count wa (bytes iba) = Inr ca \<and> byte_count iba \<le> ca \<and>
               deref wb p = Inr ibb \<and> sb_count wb (bytes ibb) = Inr cb \<and> byte_count ibb \<le> cb \<and>
               byte_count iba \<le> byte_count ibb \<and>
               byte_count ibb = byte_count iba + length (chunks ! k) \<and>
               byte_count iba + length (chunks ! k) \<le> cb"
    if run: "feed ?f w1 p chunks = Inr w2" and k: "k < length chunks" for w2 k
  proof -
    have split: "chunks = take k chunks @ chunks ! k # drop (Suc k) chunks"
      using k by (simp add: id_take_nth_drop)
    have "feed ?f w1 p (take k chunks @ chunks ! k # drop (Suc k) chunks) = Inr w2"
      using run split by simp
    then obtain wa wb where wa: "feed ?f w1 p (take k chunks) = Inr wa"
      and wb: "?f wa p (chunks ! k) = Inr wb"
      by (auto simp: feed_append split: sum.splits)
    have wb': "feed ?f w1 p (take (Suc k) chunks) = Inr wb"
      using wa wb k by (simp add: take_Suc_conv_app_nth feed_append)
    from feed_owns [OF own _ wa, of "[]"] obtain ba csa where
      owna: "owns wa p (length (concat (take k chunks))) ba csa"
      by auto
    from write_step [OF owna wb] obtain bb where
      ownb: "owns wb p (length (concat (take k chunks)) + length (chunks ! k)) bb
               (stored (length (concat (take k chunks))) csa (chunks ! k))"
      by blast
    show ?thesis
      using wa wb wb' owns_observed [OF owna] owns_observed [OF ownb] by auto
  qed
  show ?thesis
    using total part by blast
qed

theorem append_invariant_witness:
  "\<exists>w1 w2 wa wb iba ibb ca cb.
     createImageBuffer demo_lib world0 = Inr (1, w1) \<and>
     feed (write_image_to_mem demo_lib) w1 1 [[1, 2], [3]] = Inr w2 \<and>
     feed (write_image_to_mem demo_lib) w1 1 (take 1 [[1, 2], [3]]) = Inr wa \<and>
     write_image_to_mem demo_lib wa 1 ([[1, 2], [3]] ! 1) = Inr wb \<and>
     deref wa 1 = Inr iba \<and> sb_count wa (bytes iba) = Inr ca \<and> byte_count iba \<le> ca \<and>
     deref wb 1 = Inr ibb \<and> sb_count wb (bytes ibb) = Inr cb \<and> byte_count ibb \<le> cb \<and>
     byte_count iba \<le> byte_count ibb \<and>
     byte_count iba + length ([[1, 2], [3 :: byte]] ! 1) \<le> cb"
proof -
  obtain w1 where c: "createImageBuffer demo_lib world0 = Inr (1, w1)"
    using createImageBuffer_demo by blast
  have g: "\<forall>w k. grants demo_lib w k"
    by (simp add: demo_lib_def)
  have f: "padded [[1, 2], [3]] \<le> INT_MAX"
    by (simp add: padded_def INT_MAX_def)
  have k: "1 < length [[1, 2], [3 :: byte]]"
    by simp
  note T = append_invariant [OF c, of "[[1, 2], [3]]"]
  from T g f obtain w2 where
    run: "feed (write_image_to_mem demo_lib) w1 1 [[1, 2], [3]] = Inr w2"
    by blast
  from T run k c show ?thesis
    by blast
qed

text \<open>
  Claim C3. Appending a sequence of chunks, in order, with \<open>write_image_to_mem\<close> to a
  freshly created \<open>ImageBuffer\<close> gives a handle whose \<open>byte_count\<close> is the sum \<open>N\<close> of
  the chunk sizes and whose first \<open>N\<close> stored bytes are the concatenation of the chunks,
  whatever the split into chunks: both depend on the concatenation only. The appends
  complete whenever the allocator grants the requests and the element count stays an
  \<open>int\<close>; every run that completes has the stated result.
\<close>

theorem append_concat:
  assumes "createImageBuffer l w0 = Inr (p, w1)"
  shows "((\<forall>w k. grants l w k) \<and> padded chunks \<le> INT_MAX \<longrightarrow>
            (\<exists>w2. feed (write_image_to_mem l) w1 p chunks = Inr w2)) \<and>
         (\<forall>w2. feed (write_image_to_mem l) w1 p chunks = Inr w2 \<longrightarrow>
            (\<exists>b. get_num_bytes_from_handle w2 p = Inr (length (concat chunks)) \<and>
                  get_image_bytes_from_handle w2 p = Inr b \<and>
                  peek w2 b (length (concat chunks)) = Inr (map Some (concat chunks))))"
proof -
  have own: "owns w1 p 0 NULL []"
    using createImageBuffer_Inr [OF assms] by blast
  have total: "(\<forall>w k. grants l w k) \<and> padded chunks \<le> INT_MAX \<longrightarrow>
            (\<exists>w2. feed (write_image_to_mem l) w1 p chunks = Inr w2)"
    using feed_total [OF own, of l chunks] by simp
  have part: "\<exists>b. get_num_bytes_from_handle w2 p = Inr (length (concat chunks)) \<and>
                  get_image_bytes_from_handle w2 p = Inr b \<and>
                  peek w2 b (length (concat chunks)) = Inr (map Some (concat chunks))"
    if run: "feed (write_image_to_mem l) w1 p chunks = Inr w2" for w2
  proof -
    from feed_owns [OF own _ run, of "[]"] obtain b' cs' where
      own': "owns w2 p (length (concat chunks)) b' cs'"
      and tk: "take (length (concat chunks)) cs' = map Some (concat chunks)"
      by auto
    show ?thesis
      using get_num_owns [OF own'] get_bytes_owns [OF own'] peek_owns [OF own'] tk by simp
  qed
  show ?thesis
    using total part by blast
qed

theorem append_concat_witness:
  "\<exists>w1 w2 b. createImageBuffer demo_lib world0 = Inr (1, w1) \<and>
     feed (write_image_to_mem demo_lib) w1 1 [[1, 2], [3]] = Inr w2 \<and>
     get_num_bytes_from_handle w2 1 = Inr 3 \<and>
     get_image_bytes_from_handle w2 1 = Inr b \<and>
     peek w2 b 3 = Inr [Some 1, Some 2, Some 3]"
proof -
  obtain w1 where c: "createImageBuffer demo_lib world0 = Inr (1, w1)"
    using createImageBuffer_demo by blast
  have g: "\<forall>w k. grants demo_lib w k"
    by (simp add: demo_lib_def)
  have f: "padded [[1, 2], [3]] \<le> INT_MAX"
    by (simp add: padded_def INT_MAX_def)
  have e: "length (concat [[1, 2], [3 :: byte]]) = 3"
    "map Some (concat [[1, 2], [3 :: byte]]) = [Some 1, Some 2, Some 3]"
    by simp_all
  from append_concat [OF c, of "[[1, 2], [3]]"] g f c show ?thesis
    unfolding e by blast
qed

text \<open>
  Claim C4, as stated, fails for size zero: \<open>create_buffer\<close> has no test for zero and
  returns what \<open>malloc(0)\<close> returns, which C leaves to the implementation; with an
  allocator that grants the request, as Emscripten's does, the result is not \<open>NULL\<close>.
\<close>

theorem create_buffer_zero_counterexample:
  "fst (create_buffer demo_lib world0 0) \<noteq> NULL"
  by (simp add: create_buffer_def malloc_def alloc_def demo_lib_def world0_def to_size_t_def
      size_t_wrap_def NULL_def)

text \<open>
  Claim C4, amended. \<open>create_buffer(size)\<close> returns what \<open>malloc\<close> returns for \<open>size\<close>
  converted to \<open>size_t\<close>: \<open>NULL\<close>, with the heap unchanged, when the allocator refuses the
  request, and otherwise a non-null pointer never handed out before to a block of
  exactly that many uninitialised bytes, with the rest of the heap unchanged. This holds
  for size zero as for every other size; for \<open>0 \<le> size \<le> INT_MAX\<close> the converted size
  is \<open>size\<close> itself.
\<close>

theorem create_buffer_result:
  "(\<not> grants l w (to_size_t sz) \<longrightarrow> create_buffer l w sz = (NULL, w)) \<and>
   (grants l w (to_size_t sz) \<longrightarrow>
      (\<exists>p w'. create_buffer l w sz = (p, w') \<and> p \<noteq> NULL \<and> brk w < p \<and>
         live w' p = Some (Block (replicate (to_size_t sz) None)) \<and>
         (\<forall>a. a \<noteq> p \<longrightarrow> live w' a = live w a))) \<and>
   (0 \<le> sz \<and> sz \<le> int INT_MAX \<longrightarrow> to_size_t sz = nat sz)"
proof -
  have "to_size_t sz < 4294967296"
    by (simp add: to_size_t_def)
  then have "size_t_wrap (to_size_t sz * 1) = to_size_t sz"
    by (simp add: size_t_wrap_id)
  then show ?thesis
    by (auto simp: create_buffer_def malloc_def alloc_def NULL_def to_size_t_def INT_MAX_def)
qed

theorem create_buffer_result_witness:
  "create_buffer small_lib world0 100 = (NULL, world0) \<and>
   (\<exists>p w'. create_buffer small_lib world0 16 = (p, w') \<and> p \<noteq> NULL \<and>
      live w' p = Some (Block (replicate 16 None))) \<and>
   (\<exists>p w'. create_buffer small_lib world0 0 = (p, w') \<and> p \<noteq> NULL \<and>
      live w' p = Some (Block []))"
proof -
  have s: "to_size_t 100 = 100" "to_size_t 16 = 16" "to_size_t 0 = 0"
    by (simp_all add: to_size_t_def)
  have g: "\<not> grants small_lib world0 (to_size_t 100)" "grants small_lib world0 (to_size_t 16)"
    "grants small_lib world0 (to_size_t 0)"
    by (simp_all add: s small_lib_def)
  from create_buffer_result [of small_lib world0 100] create_buffer_result [of small_lib world0 16]
    create_buffer_result [of small_lib world0 0] g
  show ?thesis
    unfolding s by (simp (no_asm_use)) blast
qed

text \<open>
  Claim C5. When the decode stage fails (\<open>WebPGetInfo\<close> reports an error, or
  \<open>WebPDecodeRGBA\<close> returns \<open>NULL\<close>), both transcode operations return \<open>NULL\<close> and
  have allocated nothing: the heap at the return is the heap at the call, and the
  allocator has handed out no address, so \<open>createImageBuffer\<close> was not reached.
\<close>

theorem decode_failure_no_handle:
  assumes "WebPGetInfo l (live w) webp_ptr sz = None \<or> WebPDecodeRGBA l (live w) webp_ptr sz = None"
  shows "(\<exists>w'. get_png_handle_from_webp l w webp_ptr sz = Inr (NULL, w') \<and>
            live w' = live w \<and> brk w' = brk w) \<and>
         (\<exists>w'. get_jpg_handle_from_webp l w webp_ptr sz = Inr (NULL, w') \<and>
            live w' = live w \<and> brk w' = brk w)"
proof -
  from decode_failure [OF assms] obtain wd ht w' where
    "decode_webp_to_rgba l w webp_ptr sz = ((NULL, wd, ht), w')" "live w' = live w" "brk w' = brk w"
    by blast
  then show ?thesis
    by (simp add: get_png_handle_from_webp_def get_jpg_handle_from_webp_def)
qed

theorem decode_failure_no_handle_witness:
  "(\<exists>w'. get_png_handle_from_webp demo_lib staged 1 0 = Inr (NULL, w') \<and>
      live w' = live staged \<and> brk w' = brk staged) \<and>
   (\<exists>w'. get_jpg_handle_from_webp demo_lib staged 1 1 = Inr (NULL, w') \<and>
      live w' = live staged \<and> brk w' = brk staged)"
proof -
  have a: "WebPGetInfo demo_lib (live staged) 1 0 = None \<or>
      WebPDecodeRGBA demo_lib (live staged) 1 0 = None"
    by (simp add: demo_lib_def)
  have b: "WebPGetInfo demo_lib (live staged) 1 1 = None \<or>
      WebPDecodeRGBA demo_lib (live staged) 1 1 = None"
    by (simp add: demo_lib_def)
  from decode_failure_no_handle [OF a] decode_failure_no_handle [OF b] show ?thesis
    by blast
qed

text \<open>
  Claim C6. In every transcode invocation in which decoding succeeds and which returns,
  with a handle or with \<open>NULL\<close>, the RGBA pixel buffer that \<open>decode_webp_to_rgba\<close>
  allocated has been released by \<open>WebPFree\<close>, the last step before the return, and the
  returned handle is not that buffer and does not point to it. The invocation returns
  whenever the allocator grants the requests and the encoder's output keeps the element
  count an \<open>int\<close>.
\<close>

theorem rgba_buffer_released:
  assumes dec: "decode_webp_to_rgba l w webp_ptr sz = ((rgba_ptr, width, height), w1)"
    and r: "rgba_ptr \<noteq> NULL"
  shows "live w1 rgba_ptr \<noteq> None \<and>
    (\<forall>h w'. get_png_handle_from_webp l w webp_ptr sz = Inr (h, w') \<longrightarrow> rgba_released rgba_ptr h w') \<and>
    (\<forall>h w'. get_jpg_handle_from_webp l w webp_ptr sz = Inr (h, w') \<longrightarrow> rgba_released rgba_ptr h w') \<and>
    ((\<forall>w k. grants l w k) \<and>
       (\<forall>m. padded (fst (png_encoder l m width height 4 rgba_ptr (width * 4))) \<le> INT_MAX) \<longrightarrow>
       (\<exists>h w'. get_png_handle_from_webp l w webp_ptr sz = Inr (h, w'))) \<and>
    ((\<forall>w k. grants l w k) \<and>
       (\<forall>m. padded (fst (jpg_encoder l m width height 4 rgba_ptr 100)) \<le> INT_MAX) \<longrightarrow>
       (\<exists>h w'. get_jpg_handle_from_webp l w webp_ptr sz = Inr (h, w')))"
proof -
  have live1: "live w1 rgba_ptr \<noteq> None"
    using decode_success [OF dec r] by auto
  have png: "rgba_released rgba_ptr h w'"
    if run: "get_png_handle_from_webp l w webp_ptr sz = Inr (h, w')" for h w'
  proof -
    from run obtain p w2 where cr: "createImageBuffer l w1 = Inr (p, w2)"
      using dec r by (auto simp: get_png_handle_from_webp_def split: sum.splits)
    obtain chunks res where enc: "png_encoder l (live w2) width height 4 rgba_ptr (width * 4) = (chunks, res)"
      by (cases "png_encoder l (live w2) width height 4 rgba_ptr (width * 4)")
    from transcode_result [OF dec r cr run [unfolded png_unfold [OF dec r cr enc]]]
    show ?thesis
      using rgba_released_intro [of w' rgba_ptr p _ _ _ "trace w1" _ h] by (auto split: if_splits)
  qed
  have jpg: "rgba_released rgba_ptr h w'"
    if run: "get_jpg_handle_from_webp l w webp_ptr sz = Inr (h, w')" for h w'
  proof -
    from run obtain p w2 where cr: "createImageBuffer l w1 = Inr (p, w2)"
      using dec r by (auto simp: get_jpg_handle_from_webp_def split: sum.splits)
    obtain chunks res where enc: "jpg_encoder l (live w2) width height 4 rgba_ptr 100 = (chunks, res)"
      by (cases "jpg_encoder l (live w2) width height 4 rgba_ptr 100")
    from transcode_result [OF dec r cr run [unfolded jpg_unfold [OF dec r cr enc]]]
    show ?thesis
      using rgba_released_intro [of w' rgba_ptr p _ _ _ "trace w1" _ h] by (auto split: if_splits)
  qed
  have png_total: "\<exists>h w'. get_png_handle_from_webp l w webp_ptr sz = Inr (h, w')"
    if gr: "\<forall>w k. grants l w k"
      and fit: "\<forall>m. padded (fst (png_encoder l m width height 4 rgba_ptr (width * 4))) \<le> INT_MAX"
  proof -
    obtain p w2 where cr: "createImageBuffer l w1 = Inr (p, w2)"
      using createImageBuffer_total [of l w1] gr by blast
    obtain chunks res where enc: "png_encoder l (live w2) width height 4 rgba_ptr (width * 4) = (chunks, res)"
      by (cases "png_encoder l (live w2) width height 4 rgba_ptr (width * 4)")
    have "padded chunks \<le> INT_MAX"
      using fit [rule_format, of "live w2"] enc by simp
    from transcode_total [OF dec r cr gr this] show ?thesis
      unfolding png_unfold [OF dec r cr enc] .
  qed
  have jpg_total: "\<exists>h w'. get_jpg_handle_from_webp l w webp_ptr sz = Inr (h, w')"
    if gr: "\<forall>w k. grants l w k"
      and fit: "\<forall>m. padded (fst (jpg_encoder l m width height 4 rgba_ptr 100)) \<le> INT_MAX"
  proof -
    obtain p w2 where cr: "createImageBuffer l w1 = Inr (p, w2)"
      using createImageBuffer_total [of l w1] gr by blast
    obtain chunks res where enc: "jpg_encoder l (live w2) width height 4 rgba_ptr 100 = (chunks, res)"
      by (cases "jpg_encoder l (live w2) width height 4 rgba_ptr 100")
    have "padded chunks \<le> INT_MAX"
      using fit [rule_format, of "live w2"] enc by simp
    from transcode_total [OF dec r cr gr this] show ?thesis
      unfolding jpg_unfold [OF dec r cr enc] .
  qed
  show ?thesis
    using live1 png jpg png_total jpg_total by blast
qed

theorem rgba_buffer_released_witness:
  "\<exists>w1. decode_webp_to_rgba demo_lib staged 1 4 = ((2, 1, 1), w1) \<and> live w1 2 \<noteq> None \<and>
     (\<exists>w'. get_png_handle_from_webp demo_lib staged 1 4 = Inr (3, w') \<and> rgba_released 2 3 w') \<and>
     (\<exists>w'. get_jpg_handle_from_webp demo_lib staged 1 4 = Inr (3, w') \<and> rgba_released 2 3 w')"
proof -
  obtain w1 where d: "decode_webp_to_rgba demo_lib staged 1 4 = ((2, 1, 1), w1)"
    using decode_demo by blast
  have r: "2 \<noteq> NULL"
    by (simp add: NULL_def)
  obtain wp where png: "get_png_handle_from_webp demo_lib staged 1 4 = Inr (3, wp)"
    using demo_png by blast
  obtain wj where jpg: "get_jpg_handle_from_webp demo_lib staged 1 4 = Inr (3, wj)"
    using demo_jpg by blast
  from rgba_buffer_released [OF d r] d png jpg show ?thesis
    by blast
qed

text \<open>
  Claim C7. \<open>release_image_handle(NULL)\<close> changes nothing. Called once on a valid
  handle (a live \<open>ImageBuffer\<close> whose \<open>bytes\<close> is the null buffer or a live stretchy
  buffer), it succeeds and afterwards neither the struct nor its stretchy buffer is
  allocated, while every other allocation is as before: one release frees all the
  memory of the handle.
\<close>

theorem release_image_handle_frees:
  "release_image_handle w NULL = Inr w \<and>
   (deref w p = Inr ib \<and> sb_count w (bytes ib) = Inr c \<longrightarrow>
      (\<exists>w'. release_image_handle w p = Inr w' \<and> live w' p = None \<and>
         (bytes ib \<noteq> NULL \<longrightarrow> live w' (bytes ib) = None) \<and>
         (\<forall>a. a \<noteq> p \<and> a \<noteq> bytes ib \<longrightarrow> live w' a = live w a) \<and>
         live w' NULL = live w NULL \<and> brk w' = brk w \<and> trace w' = trace w))"
  by (auto simp: release_image_handle_def deref_def sb_count_def sb_free_def free_def
      split: if_splits option.splits obj.splits)

theorem release_image_handle_frees_witness:
  "\<exists>w' w''. get_jpg_handle_from_webp demo_lib staged 1 4 = Inr (3, w') \<and>
     release_image_handle w' 3 = Inr w'' \<and> live w'' 3 = None \<and> live w'' 4 = None \<and>
     live w'' 2 = None \<and> live w'' 1 = live staged 1"
proof -
  obtain w' where run: "get_jpg_handle_from_webp demo_lib staged 1 4 = Inr (3, w')"
    and d: "deref w' 3 = Inr \<lparr>byte_count = 3, bytes = 4\<rparr>"
    and c: "sb_count w' (bytes \<lparr>byte_count = 3, bytes = 4\<rparr>) = Inr 128"
    and l: "live w' 2 = None" "live w' 1 = live staged 1"
    using demo_jpg by auto
  have n: "bytes \<lparr>byte_count = 3, bytes = 4\<rparr> \<noteq> NULL" "bytes \<lparr>byte_count = 3, bytes = 4\<rparr> = 4"
    by (simp_all add: NULL_def)
  from release_image_handle_frees [of w' 3 "\<lparr>byte_count = 3, bytes = 4\<rparr>" 128] d c
  obtain w'' where "release_image_handle w' 3 = Inr w''" "live w'' 3 = None" "live w'' 4 = None"
    "\<forall>a. a \<noteq> 3 \<and> a \<noteq> 4 \<longrightarrow> live w'' a = live w' a"
    using n by auto
  then show ?thesis
    using run l by auto
qed

text \<open>
  Claim C8. An append that finds \<open>sb_count(bytes) < byte_count + size\<close> grows the
  element count by exactly the larger of \<open>size\<close> and 128; an append that finds the
  capacity sufficient leaves the element count as it is. This is so in every state in
  which the handle is at an address the allocator has handed out, its \<open>byte_count\<close> is
  at most its element count (claim C2) and the element count is an \<open>int\<close>; the append
  completes if, where it has to grow, the allocator grants the request and the new
  count is an \<open>int\<close>.
\<close>

theorem growth_policy:
  assumes "deref w p = Inr ib" and "p \<le> brk w" and "sb_count w (bytes ib) = Inr c"
    and "byte_count ib \<le> c" and "c \<le> INT_MAX"
  shows "((c < byte_count ib + length data \<longrightarrow>
             grants l w (c + max (length data) 128) \<and> c + max (length data) 128 \<le> INT_MAX) \<longrightarrow>
            (\<exists>w'. write_image_to_mem l w p data = Inr w')) \<and>
         (\<forall>w'. write_image_to_mem l w p data = Inr w' \<longrightarrow>
            (\<exists>ib'. deref w' p = Inr ib' \<and>
               sb_count w' (bytes ib') =
                 Inr (if c < byte_count ib + length data then c + max (length data) 128 else c)))"
proof -
  obtain cs where own: "owns w p (byte_count ib) (bytes ib) cs" and c: "length cs = c"
    using owns_intro [OF assms] by blast
  have n: "byte_count ib \<le> length cs"
    using assms(4) c by simp
  have total: "(c < byte_count ib + length data \<longrightarrow>
             grants l w (c + max (length data) 128) \<and> c + max (length data) 128 \<le> INT_MAX) \<longrightarrow>
            (\<exists>w'. write_image_to_mem l w p data = Inr w')"
    using write_total [OF own, of data l] c by blast
  have part: "\<exists>ib'. deref w' p = Inr ib' \<and>
               sb_count w' (bytes ib') =
                 Inr (if c < byte_count ib + length data then c + max (length data) 128 else c)"
    if run: "write_image_to_mem l w p data = Inr w'" for w'
  proof -
    from write_step [OF own run] obtain b' where
      own': "owns w' p (byte_count ib + length data) b' (stored (byte_count ib) cs data)"
      by blast
    have "length (stored (byte_count ib) cs data) =
        (if c < byte_count ib + length data then c + max (length data) 128 else c)"
      using length_stored [OF n, of data] c by (simp add: grown_def)
    then show ?thesis
      using owns_observed [OF own'] by auto
  qed
  show ?thesis
    using total part by blast
qed

theorem growth_policy_witness:
  "\<exists>w' ib'. write_image_to_mem demo_lib world1 1 [1, 2, 3] = Inr w' \<and> deref w' 1 = Inr ib' \<and>
     sb_count w' (bytes ib') = Inr 128"
proof -
  have d: "deref world1 1 = Inr \<lparr>byte_count = 0, bytes = NULL\<rparr>"
    by (simp add: deref_def world1_def NULL_def)
  have b: "1 \<le> brk world1"
    by (simp add: world1_def)
  have c: "sb_count world1 (bytes \<lparr>byte_count = 0, bytes = NULL\<rparr>) = Inr 0"
    by (simp add: sb_count_def)
  have n: "byte_count \<lparr>byte_count = 0, bytes = NULL\<rparr> \<le> 0" "0 \<le> INT_MAX"
    by simp_all
  have g: "grants demo_lib world1 (0 + max (length [1 :: byte, 2, 3]) 128) \<and>
      0 + max (length [1 :: byte, 2, 3]) 128 \<le> INT_MAX"
    by (simp add: demo_lib_def INT_MAX_def)
  from growth_policy [OF d b c n, of "[1, 2, 3]" demo_lib] g show ?thesis
    by auto
qed

text \<open>
  Claim C9. With a null input pointer \<open>decode_webp_to_rgba\<close> prints its diagnostic and
  goes on: it calls \<open>WebPGetInfo\<close> on the null pointer and, if that succeeds,
  \<open>WebPDecodeRGBA\<close> on the null pointer, and it returns \<open>NULL\<close> only if one of the two
  fails. The same three events, in this order, are the first of every transcode
  invocation with a null pointer that returns.
\<close>

theorem null_input_is_decoded:
  "(\<exists>r wd ht w'. decode_webp_to_rgba l w NULL sz = ((r, wd, ht), w') \<and>
      take 2 (drop (length (trace w)) (trace w')) =
        [Stdout ''decode_webp_to_rgba() called with NULL webp_ptr'', Call_WebPGetInfo NULL sz] \<and>
      (WebPGetInfo l (live w) NULL sz \<noteq> None \<longrightarrow>
         trace w' = trace w @ [Stdout ''decode_webp_to_rgba() called with NULL webp_ptr'',
           Call_WebPGetInfo NULL sz, Call_WebPDecodeRGBA NULL sz]) \<and>
      (r = NULL \<longleftrightarrow>
         WebPGetInfo l (live w) NULL sz = None \<or> WebPDecodeRGBA l (live w) NULL sz = None)) \<and>
   (\<forall>h w'. get_png_handle_from_webp l w NULL sz = Inr (h, w') \<or>
       get_jpg_handle_from_webp l w NULL sz = Inr (h, w') \<longrightarrow>
      take 2 (drop (length (trace w)) (trace w')) =
        [Stdout ''decode_webp_to_rgba() called with NULL webp_ptr'', Call_WebPGetInfo NULL sz] \<and>
      (WebPGetInfo l (live w) NULL sz \<noteq> None \<longrightarrow>
         take 3 (drop (length (trace w)) (trace w')) =
           [Stdout ''decode_webp_to_rgba() called with NULL webp_ptr'',
            Call_WebPGetInfo NULL sz, Call_WebPDecodeRGBA NULL sz]))"
proof -
  let ?m = "Stdout ''decode_webp_to_rgba() called with NULL webp_ptr''"
  obtain r wd ht w1 where dec: "decode_webp_to_rgba l w NULL sz = ((r, wd, ht), w1)"
    by (metis prod_cases3 surj_pair)
  note T = decode_trace [OF dec]
  have t2: "take 2 (drop (length (trace w)) (trace w1)) = [?m, Call_WebPGetInfo NULL sz]"
    using T by simp
  have t3: "trace w1 = trace w @ [?m, Call_WebPGetInfo NULL sz, Call_WebPDecodeRGBA NULL sz]"
    if "WebPGetInfo l (live w) NULL sz \<noteq> None"
    using T that by auto
  have first: "\<exists>r wd ht w'. decode_webp_to_rgba l w NULL sz = ((r, wd, ht), w') \<and>
      take 2 (drop (length (trace w)) (trace w')) = [?m, Call_WebPGetInfo NULL sz] \<and>
      (WebPGetInfo l (live w) NULL sz \<noteq> None \<longrightarrow>
         trace w' = trace w @ [?m, Call_WebPGetInfo NULL sz, Call_WebPDecodeRGBA NULL sz]) \<and>
      (r = NULL \<longleftrightarrow>
         WebPGetInfo l (live w) NULL sz = None \<or> WebPDecodeRGBA l (live w) NULL sz = None)"
  proof (intro exI conjI)
    show "decode_webp_to_rgba l w NULL sz = ((r, wd, ht), w1)"
      by (rule dec)
    show "take 2 (drop (length (trace w)) (trace w1)) = [?m, Call_WebPGetInfo NULL sz]"
      by (rule t2)
    show "WebPGetInfo l (live w) NULL sz \<noteq> None \<longrightarrow>
         trace w1 = trace w @ [?m, Call_WebPGetInfo NULL sz, Call_WebPDecodeRGBA NULL sz]"
      using t3 by simp
    show "r = NULL \<longleftrightarrow>
         WebPGetInfo l (live w) NULL sz = None \<or> WebPDecodeRGBA l (live w) NULL sz = None"
      by (rule decode_null_iff [OF dec])
  qed
  have ext: "\<exists>t. trace w' = trace w1 @ t"
    if run: "get_png_handle_from_webp l w NULL sz = Inr (h, w') \<or>
       get_jpg_handle_from_webp l w NULL sz = Inr (h, w')" for h w'
  proof (cases "r = NULL")
    case True
    then have "w' = w1"
      using run dec by (auto simp: get_png_handle_from_webp_def get_jpg_handle_from_webp_def)
    then show ?thesis
      by simp
  next
    case False
    from run show ?thesis
    proof
      assume png: "get_png_handle_from_webp l w NULL sz = Inr (h, w')"
      then obtain p w2 where cr: "createImageBuffer l w1 = Inr (p, w2)"
        using dec False by (auto simp: get_png_handle_from_webp_def split: sum.splits)
      obtain chunks res where enc: "png_encoder l (live w2) wd ht 4 r (wd * 4) = (chunks, res)"
        by (cases "png_encoder l (live w2) wd ht 4 r (wd * 4)")
      from transcode_result [OF dec False cr png [unfolded png_unfold [OF dec False cr enc]]]
      show ?thesis
        by blast
    next
      assume jpg: "get_jpg_handle_from_webp l w NULL sz = Inr (h, w')"
      then obtain p w2 where cr: "createImageBuffer l w1 = Inr (p, w2)"
        using dec False by (auto simp: get_jpg_handle_from_webp_def split: sum.splits)
      obtain chunks res where enc: "jpg_encoder l (live w2) wd ht 4 r 100 = (chunks, res)"
        by (cases "jpg_encoder l (live w2) wd ht 4 r 100")
      from transcode_result [OF dec False cr jpg [unfolded jpg_unfold [OF dec False cr enc]]]
      show ?thesis
        by blast
    qed
  qed
  have second: "\<forall>h w'. get_png_handle_from_webp l w NULL sz = Inr (h, w') \<or>
       get_jpg_handle_from_webp l w NULL sz = Inr (h, w') \<longrightarrow>
      take 2 (drop (length (trace w)) (trace w')) = [?m, Call_WebPGetInfo NULL sz] \<and>
      (WebPGetInfo l (live w) NULL sz \<noteq> None \<longrightarrow>
         take 3 (drop (length (trace w)) (trace w')) =
           [?m, Call_WebPGetInfo NULL sz, Call_WebPDecodeRGBA NULL sz])"
  proof (intro allI impI conjI)
    fix h w'
    assume run: "get_png_handle_from_webp l w NULL sz = Inr (h, w') \<or>
       get_jpg_handle_from_webp l w NULL sz = Inr (h, w')"
    from ext [OF run] obtain t where t: "trace w' = trace w1 @ t"
      by (rule exE)
    show "take 2 (drop (length (trace w)) (trace w')) = [?m, Call_WebPGetInfo NULL sz]"
      using T t by simp
    assume "WebPGetInfo l (live w) NULL sz \<noteq> None"
    from t3 [OF this] t
    show "take 3 (drop (length (trace w)) (trace w')) =
           [?m, Call_WebPGetInfo NULL sz, Call_WebPDecodeRGBA NULL sz]"
      by simp
  qed
  from first second show ?thesis
    by (rule conjI)
qed

theorem null_input_is_decoded_witness:
  "\<exists>w'. get_png_handle_from_webp demo_lib staged NULL 4 = Inr (3, w') \<and>
     take 3 (drop (length (trace staged)) (trace w')) =
       [Stdout ''decode_webp_to_rgba() called with NULL webp_ptr'',
        Call_WebPGetInfo NULL 4, Call_WebPDecodeRGBA NULL 4]"
  using null_input_is_decoded [of demo_lib staged 4] demo_null by blast

text \<open>
  Claim C10. The accessors dereference their argument without a test: on \<open>NULL\<close> (which
  \<open>release_image_handle\<close> accepts) and on an address that is not allocated they fault.
  On a live handle \<open>get_image_bytes_from_handle\<close> returns the \<open>bytes\<close> field and
  \<open>get_num_bytes_from_handle\<close> the \<open>byte_count\<close> field: \<open>NULL\<close> and 0 for a handle just
  created, and after appends the number of bytes appended.
\<close>

theorem handle_accessors:
  "get_image_bytes_from_handle w NULL = Inl NullDeref \<and>
   get_num_bytes_from_handle w NULL = Inl NullDeref \<and>
   release_image_handle w NULL = Inr w \<and>
   (live w p = None \<longrightarrow>
      (\<exists>e. get_image_bytes_from_handle w p = Inl e) \<and> (\<exists>e. get_num_bytes_from_handle w p = Inl e)) \<and>
   (p \<noteq> NULL \<and> live w p = Some (Handle ib) \<longrightarrow>
      get_image_bytes_from_handle w p = Inr (bytes ib) \<and>
      get_num_bytes_from_handle w p = Inr (byte_count ib)) \<and>
   (createImageBuffer l w = Inr (p, w1) \<longrightarrow>
      get_image_bytes_from_handle w1 p = Inr NULL \<and>
      get_num_bytes_from_handle w1 p = Inr 0 \<and>
      (\<forall>chunks w2. feed (write_image_to_mem l) w1 p chunks = Inr w2 \<longrightarrow>
         get_num_bytes_from_handle w2 p = Inr (length (concat chunks))))"
proof -
  have a: "get_image_bytes_from_handle w NULL = Inl NullDeref"
    "get_num_bytes_from_handle w NULL = Inl NullDeref" "release_image_handle w NULL = Inr w"
    by (simp_all add: get_image_bytes_from_handle_def get_num_bytes_from_handle_def deref_def
        release_image_handle_def)
  have b: "(\<exists>e. get_image_bytes_from_handle w p = Inl e) \<and> (\<exists>e. get_num_bytes_from_handle w p = Inl e)"
    if "live w p = None"
    using that
    by (simp add: get_image_bytes_from_handle_def get_num_bytes_from_handle_def deref_def)
  have c: "get_image_bytes_from_handle w p = Inr (bytes ib) \<and>
      get_num_bytes_from_handle w p = Inr (byte_count ib)"
    if "p \<noteq> NULL \<and> live w p = Some (Handle ib)"
    using that
    by (simp add: get_image_bytes_from_handle_def get_num_bytes_from_handle_def deref_def)
  have d: "get_image_bytes_from_handle w1 p = Inr NULL \<and>
      get_num_bytes_from_handle w1 p = Inr 0 \<and>
      (\<forall>chunks w2. feed (write_image_to_mem l) w1 p chunks = Inr w2 \<longrightarrow>
         get_num_bytes_from_handle w2 p = Inr (length (concat chunks)))"
    if cr: "createImageBuffer l w = Inr (p, w1)"
  proof -
    have own: "owns w1 p 0 NULL []"
      using createImageBuffer_Inr(1) [OF cr] .
    have "get_num_bytes_from_handle w2 p = Inr (length (concat chunks))"
      if "feed (write_image_to_mem l) w1 p chunks = Inr w2" for chunks w2
      using feed_owns [OF own _ that, of "[]"] get_num_owns by auto
    then show ?thesis
      using get_num_owns [OF own] get_bytes_owns [OF own] by blast
  qed
  show ?thesis
    using a b c d by blast
qed

theorem handle_accessors_witness:
  "(\<exists>w'. get_png_handle_from_webp demo_lib staged 1 4 = Inr (3, w') \<and>
      get_image_bytes_from_handle w' 3 = Inr 4 \<and> get_num_bytes_from_handle w' 3 = Inr 4 \<and>
      (\<exists>e. get_image_bytes_from_handle w' 5 = Inl e) \<and> (\<exists>e. get_num_bytes_from_handle w' 5 = Inl e)) \<and>
   (\<exists>w1 w2. createImageBuffer demo_lib world0 = Inr (1, w1) \<and>
      get_image_bytes_from_handle w1 1 = Inr NULL \<and> get_num_bytes_from_handle w1 1 = Inr 0 \<and>
      feed (write_image_to_mem demo_lib) w1 1 [[1, 2], [3]] = Inr w2 \<and>
      get_num_bytes_from_handle w2 1 = Inr (length (concat [[1, 2], [3 :: byte]])))"
proof -
  obtain w' where run: "get_png_handle_from_webp demo_lib staged 1 4 = Inr (3, w')"
    and h: "3 \<noteq> NULL \<and> live w' 3 = Some (Handle \<lparr>byte_count = 4, bytes = 4\<rparr>)" and n: "live w' 5 = None"
    using demo_png by (auto simp: NULL_def)
  obtain w1 where c: "createImageBuffer demo_lib world0 = Inr (1, w1)"
    using createImageBuffer_demo by blast
  obtain w2 where f: "feed (write_image_to_mem demo_lib) w1 1 [[1, 2], [3]] = Inr w2"
    using feed_total [OF createImageBuffer_Inr(1) [OF c], of demo_lib "[[1, 2], [3]]"]
    by (auto simp: demo_lib_def padded_def INT_MAX_def)
  have e: "bytes \<lparr>byte_count = 4, bytes = 4\<rparr> = 4" "byte_count \<lparr>byte_count = 4, bytes = 4\<rparr> = 4"
    by simp_all
  from handle_accessors [of w' 5 _ demo_lib _] n
  have A: "(\<exists>e. get_image_bytes_from_handle w' 5 = Inl e) \<and> (\<exists>e. get_num_bytes_from_handle w' 5 = Inl e)"
    by blast
  from handle_accessors [of w' 3 "\<lparr>byte_count = 4, bytes = 4\<rparr>" demo_lib _] h
  have B: "get_image_bytes_from_handle w' 3 = Inr 4 \<and> get_num_bytes_from_handle w' 3 = Inr 4"
    unfolding e by blast
  from handle_accessors [of world0 1 _ demo_lib w1] c f
  have C: "get_image_bytes_from_handle w1 1 = Inr NULL \<and> get_num_bytes_from_handle w1 1 = Inr 0 \<and>
      get_num_bytes_from_handle w2 1 = Inr (length (concat [[1, 2], [3 :: byte]]))"
    by blast
  show ?thesis
    using run c f A B C by blast
qed

end
